theory Spec2Isabelle
  imports
    Main
    "HOL-Library.AList"
    "HOL-Library.Multiset"
    "HOL-Library.Sublist"
    "HOL-Library.Char_ord"
    "HOL-Library.List_Lexorder"
begin

section \<open>Values of the host language\<close>

text \<open>
  A TypeScript \<^verbatim>\<open>string | undefined\<close> is a \<open>string option\<close>, \<open>None\<close> being
  \<^verbatim>\<open>undefined\<close>. The source tests such values for truthiness (\<^verbatim>\<open>if (projectKey)\<close>,
  \<^verbatim>\<open>a || b\<close>, \<^verbatim>\<open>!!x\<close>, \<^verbatim>\<open>!remoteName\<close>): \<^verbatim>\<open>undefined\<close> and the empty string are falsy,
  every other string is truthy. Strings are compared and searched element by element,
  so the element type of \<open>string\<close> plays no part in what follows.
\<close>

definition truthy :: "string option \<Rightarrow> bool" where
  "truthy v = (case v of None \<Rightarrow> False | Some s \<Rightarrow> s \<noteq> [])"

text \<open>\<^verbatim>\<open>a || b\<close> on two optional strings: \<open>a\<close> when it is truthy, otherwise \<open>b\<close>.\<close>

definition or_else :: "string option \<Rightarrow> string option \<Rightarrow> string option" where
  "or_else a b = (if truthy a then a else b)"

text \<open>\<^verbatim>\<open>a || 'literal'\<close>: the result is always a string.\<close>

definition or_default :: "string option \<Rightarrow> string \<Rightarrow> string" where
  "or_default a d = (case a of None \<Rightarrow> d | Some s \<Rightarrow> if s = [] then d else s)"

text \<open>
  Exceptions and rejected promises are values: \<open>Inl\<close> of an \<open>error\<close>. \<open>TypeError\<close> is
  what the runtime raises when a property of \<^verbatim>\<open>undefined\<close> is read.
\<close>

datatype error = TypeError | RequestFailed

text \<open>What a function shows to the user, in the order of the calls.\<close>

datatype ui_event =
    ShowInformationMessage string
  | ShowWarningMessage string "string list"
  | ShowErrorMessage string
  | ShowQuickPick "string list" string string

section \<open>extension.ts: cleanRemoteName\<close>

text \<open>
  \<^verbatim>\<open>String.prototype.indexOf\<close>: the least position at which the search string occurs,
  or \<open>-1\<close>. The empty search string occurs at position \<open>0\<close>.
\<close>

fun indexOfFrom :: "string \<Rightarrow> string \<Rightarrow> nat \<Rightarrow> int" where
  "indexOfFrom t [] i = (if t = [] then int i else - 1)"
| "indexOfFrom t (c # s) i = (if prefix t (c # s) then int i else indexOfFrom t s (Suc i))"

definition indexOf :: "string \<Rightarrow> string \<Rightarrow> int" where
  "indexOf s t = indexOfFrom t s 0"

definition allowedRemotes :: "string list" where
  "allowedRemotes = [''ssh-remote'', ''dev-container'', ''attached-container'', ''wsl'', ''codespaces'']"

text \<open>
  \<^verbatim>\<open>
  function cleanRemoteName(remoteName?: string): string {
    if (!remoteName) { return 'none'; }
    let ret = 'other';
    ['ssh-remote', 'dev-container', 'attached-container', 'wsl', 'codespaces']
      .forEach((res: string) => {
        if (remoteName.indexOf(`${res}`) === 0) { ret = res; }
      });
    return ret;
  }
  \<close>
  The \<^verbatim>\<open>forEach\<close> is a left-to-right fold over the list with \<open>ret\<close> as the state.
\<close>

definition cleanRemoteName :: "string option \<Rightarrow> string" where
  "cleanRemoteName remoteName =
     (case remoteName of
        None \<Rightarrow> ''none''
      | Some rn \<Rightarrow>
          if rn = [] then ''none''
          else fold (\<lambda>res ret. if indexOf rn res = 0 then res else ret) allowedRemotes ''other'')"

section \<open>The editor's workspace and its configuration store\<close>

text \<open>
  A workspace folder of the editor. Its \<open>uri\<close> field holds the string form of the
  folder's URI (what \<^verbatim>\<open>uri.toString()\<close> returns); the configuration of a folder is
  looked up by it.
\<close>

record WorkspaceFolder =
  uri :: string
  name :: string
  index :: nat

text \<open>
  \<^verbatim>\<open>
  export interface ProjectBinding { projectKey: string; serverId?: string; connectionId?: string; }
  export interface BoundFolder { folder: VSCode.WorkspaceFolder; binding: ProjectBinding; }
  \<close>
  The source reads \<open>projectKey\<close> as possibly absent (\<^verbatim>\<open>existingSettings.projectKey === undefined\<close>,
  \<^verbatim>\<open>if (projectKey)\<close>), so all three fields are optional here.
\<close>

record ProjectBinding =
  projectKey :: "string option"
  serverId :: "string option"
  connectionId :: "string option"

record BoundFolder =
  folder :: WorkspaceFolder
  binding :: ProjectBinding

text \<open>
  The part of the editor's state that binding.ts reads and writes:
  \<^item> \<open>workspaceFolders\<close> is \<^verbatim>\<open>VSCode.workspace.workspaceFolders\<close>, \<^verbatim>\<open>undefined\<close> when no
    folder is open;
  \<^item> \<open>folderValue u\<close> is the value of the setting \<^verbatim>\<open>sonarlint.connectedMode.project\<close>
    stored at the workspace-folder level for the folder with URI \<open>u\<close>, \<open>None\<close> when the
    setting is not defined at that level;
  \<^item> \<open>inheritedValue\<close> is what the other levels (the declared default, which is the empty
    object, then user and workspace settings) yield for that setting.

  The configuration store belongs to the editor, not to this repository. It is modelled
  by the contract of its programming interface: \<^verbatim>\<open>get\<close> returns the effective value, in
  which the workspace-folder level overrides the other levels, object values being merged
  field by field; \<^verbatim>\<open>update\<close> writes one level, and \<^verbatim>\<open>update(key, undefined, target)\<close>
  removes the setting from that level. Without an explicit target, \<^verbatim>\<open>update\<close> on a
  configuration obtained for a folder writes the workspace-folder level of a setting
  declared per folder, as this one is.
\<close>

record workspace =
  workspaceFolders :: "WorkspaceFolder list option"
  folderValue :: "string \<Rightarrow> ProjectBinding option"
  inheritedValue :: ProjectBinding

definition mergeBinding :: "ProjectBinding \<Rightarrow> ProjectBinding \<Rightarrow> ProjectBinding" where
  "mergeBinding lower upper =
     \<lparr>projectKey = (case projectKey upper of None \<Rightarrow> projectKey lower | Some v \<Rightarrow> Some v),
      serverId = (case serverId upper of None \<Rightarrow> serverId lower | Some v \<Rightarrow> Some v),
      connectionId = (case connectionId upper of None \<Rightarrow> connectionId lower | Some v \<Rightarrow> Some v)\<rparr>"

text \<open>
  \<^verbatim>\<open>VSCode.workspace.getConfiguration(SONARLINT_CATEGORY, scope).get<ProjectBinding>(BINDING_SETTINGS)\<close>
  for the folder with URI \<open>u\<close>.
\<close>

definition config_get :: "workspace \<Rightarrow> string \<Rightarrow> ProjectBinding" where
  "config_get w u =
     (case folderValue w u of
        None \<Rightarrow> inheritedValue w
      | Some b \<Rightarrow> mergeBinding (inheritedValue w) b)"

text \<open>
  \<^verbatim>\<open>getConfiguration(SONARLINT_CATEGORY, scope).update(BINDING_SETTINGS, v, WorkspaceFolder)\<close>,
  once its promise has resolved; \<open>None\<close> is \<^verbatim>\<open>undefined\<close>.
\<close>

definition config_update :: "workspace \<Rightarrow> string \<Rightarrow> ProjectBinding option \<Rightarrow> workspace" where
  "config_update w u v = w\<lparr>folderValue := (folderValue w)(u := v)\<rparr>"

text \<open>The folders the loops of binding.ts run over: \<^verbatim>\<open>VSCode.workspace.workspaceFolders || []\<close>.\<close>

definition folders_of :: "workspace \<Rightarrow> WorkspaceFolder list" where
  "folders_of w = (case workspaceFolders w of None \<Rightarrow> [] | Some fs \<Rightarrow> fs)"

section \<open>The Map of the host language\<close>

text \<open>
  A \<^verbatim>\<open>Map\<close> keeps its entries in insertion order, one entry per key. It is an
  association list: \<^verbatim>\<open>has\<close> and \<^verbatim>\<open>get\<close> find the entry of a key, \<^verbatim>\<open>set\<close> replaces the
  value of an existing key in place and appends a new key at the end.
\<close>

definition map_has :: "('k \<times> 'v) list \<Rightarrow> 'k \<Rightarrow> bool" where
  "map_has m k = (map_of m k \<noteq> None)"

definition map_get :: "('k \<times> 'v) list \<Rightarrow> 'k \<Rightarrow> 'v option" where
  "map_get m k = map_of m k"

definition map_set :: "('k \<times> 'v) list \<Rightarrow> 'k \<Rightarrow> 'v \<Rightarrow> ('k \<times> 'v) list" where
  "map_set m k v = AList.update k v m"

section \<open>binding.ts: the binding service\<close>

definition DEFAULT_CONNECTION_ID :: string where
  "DEFAULT_CONNECTION_ID = ''<default>''"

definition BIND_MANUALLY_ACTION :: string where
  "BIND_MANUALLY_ACTION = ''Bind Manually''"

definition DO_NOT_ASK_ABOUT_AUTO_BINDING_FOR_FOLDER_FLAG :: string where
  "DO_NOT_ASK_ABOUT_AUTO_BINDING_FOR_FOLDER_FLAG = ''doNotAskAboutAutoBindingForFolder''"

subsection \<open>isBound and shouldBeAutoBound\<close>

text \<open>
  \<^verbatim>\<open>
  isBound(workspaceFolder: VSCode.WorkspaceFolder) {
    const config = VSCode.workspace.getConfiguration(SONARLINT_CATEGORY, workspaceFolder.uri);
    const binding = config.get<ProjectBinding>(BINDING_SETTINGS);
    return !!binding.projectKey;
  }
  \<close>
\<close>

definition isBound :: "workspace \<Rightarrow> WorkspaceFolder \<Rightarrow> bool" where
  "isBound w workspaceFolder =
     (let b = config_get w (uri workspaceFolder) in truthy (projectKey b))"

text \<open>
  The workspace state is a \<^verbatim>\<open>Memento\<close>: \<^verbatim>\<open>get(key, defaultValue)\<close> returns the stored
  value, or the default when nothing is stored under the key.
\<close>

definition memento_get :: "(string \<Rightarrow> string list option) \<Rightarrow> string \<Rightarrow> string list \<Rightarrow> string list" where
  "memento_get workspaceState k d = (case workspaceState k of None \<Rightarrow> d | Some v \<Rightarrow> v)"

text \<open>
  \<^verbatim>\<open>
  shouldBeAutoBound(workspaceFolder: VSCode.WorkspaceFolder) {
    const foldersToBeIgnored =
      this.workspaceState.get<string[]>(DO_NOT_ASK_ABOUT_AUTO_BINDING_FOR_FOLDER_FLAG, []);
    return !this.isBound(workspaceFolder)
      && !foldersToBeIgnored.includes(workspaceFolder.uri.toString());
  }
  \<close>
\<close>

definition shouldBeAutoBound ::
  "(string \<Rightarrow> string list option) \<Rightarrow> workspace \<Rightarrow> WorkspaceFolder \<Rightarrow> bool" where
  "shouldBeAutoBound workspaceState w workspaceFolder =
     (let foldersToBeIgnored =
            memento_get workspaceState DO_NOT_ASK_ABOUT_AUTO_BINDING_FOR_FOLDER_FLAG []
      in \<not> isBound w workspaceFolder \<and> uri workspaceFolder \<notin> set foldersToBeIgnored)"

subsection \<open>saveBinding\<close>

text \<open>
  \<^verbatim>\<open>
  async saveBinding(projectKey: string, connectionId?: string,
                    workspaceFolder?: VSCode.WorkspaceFolder) {
    VSCode.window.showInformationMessage(`Workspace folder '${workspaceFolder.name}/'
                      has been bound with project '${projectKey}'`);
    return VSCode.workspace
      .getConfiguration(SONARLINT_CATEGORY, workspaceFolder)
      .update(BINDING_SETTINGS, { connectionId, projectKey });
  }
  \<close>
  Reading \<^verbatim>\<open>workspaceFolder.name\<close> of an absent folder raises. The result is the workspace
  once the update has resolved, with the message that was shown.
\<close>

definition saveBinding ::
  "string \<Rightarrow> string option \<Rightarrow> WorkspaceFolder option \<Rightarrow> workspace
     \<Rightarrow> error + (workspace \<times> ui_event list)" where
  "saveBinding pk cid workspaceFolder w =
     (case workspaceFolder of
        None \<Rightarrow> Inl TypeError
      | Some f \<Rightarrow>
          Inr (config_update w (uri f)
                 (Some \<lparr>projectKey = Some pk, serverId = None, connectionId = cid\<rparr>),
               [ShowInformationMessage
                  (''Workspace folder '' @ [CHR 0x27] @ name f @ ''/'' @ [CHR 0x27, CHR 0x0A]
                   @ replicate 22 (CHR '' '') @ ''has been bound with project ''
                   @ [CHR 0x27] @ pk @ [CHR 0x27])]))"

subsection \<open>deleteBinding\<close>

text \<open>
  The tree item of a bound folder (class \<^verbatim>\<open>WorkspaceFolderItem\<close> of connections.ts, which
  is not among the sources): the fields taken here are the folder's name and the
  \<^verbatim>\<open>uri\<close> field that \<open>deleteBinding\<close> hands to \<^verbatim>\<open>getConfiguration\<close> as the scope.
\<close>

record WorkspaceFolderItem =
  item_name :: string
  item_uri :: WorkspaceFolder

datatype binding_item = TreeItem WorkspaceFolderItem | Bound BoundFolder

text \<open>
  \<^verbatim>\<open>
  async deleteBinding(workspaceFolderItem: WorkspaceFolderItem | BoundFolder): Promise<void> {
    const folder = workspaceFolderItem instanceof WorkspaceFolderItem
      ? workspaceFolderItem.uri : workspaceFolderItem.folder;
    const config = VSCode.workspace.getConfiguration(SONARLINT_CATEGORY, folder);
    return config.update(BINDING_SETTINGS, undefined, VSCode.ConfigurationTarget.WorkspaceFolder);
  }
  \<close>
\<close>

definition deleteBinding :: "binding_item \<Rightarrow> workspace \<Rightarrow> workspace" where
  "deleteBinding workspaceFolderItem w =
     (let f = (case workspaceFolderItem of TreeItem i \<Rightarrow> item_uri i | Bound b \<Rightarrow> folder b)
      in config_update w (uri f) None)"

subsection \<open>getAllBindings\<close>

type_synonym bindings = "(string \<times> (string \<times> BoundFolder list) list) list"

text \<open>
  The body of the loop of \<open>getAllBindings\<close> for a folder with a truthy project key:
  \<^verbatim>\<open>
  if (!bindingsPerConnectionId.has(connectionId)) {
    bindingsPerConnectionId.set(connectionId, new Map<string, BoundFolder[]>());
  }
  const connectionBindingsPerProjectKey = bindingsPerConnectionId.get(connectionId);
  if (!connectionBindingsPerProjectKey.has(projectKey)) {
    connectionBindingsPerProjectKey.set(projectKey, []);
  }
  connectionBindingsPerProjectKey.get(projectKey).push({ folder, binding });
  \<close>
  The inner map and the array are shared with the outer map and changed in place; here
  the changed inner map is written back under its key. A \<^verbatim>\<open>get\<close> that returned
  \<^verbatim>\<open>undefined\<close> would make the next call raise.
\<close>

definition addBoundFolder :: "bindings \<Rightarrow> string \<Rightarrow> string \<Rightarrow> BoundFolder \<Rightarrow> error + bindings" where
  "addBoundFolder bindingsPerConnectionId cid pk bf =
     (let m1 = (if \<not> map_has bindingsPerConnectionId cid
                then map_set bindingsPerConnectionId cid []
                else bindingsPerConnectionId)
      in case map_get m1 cid of
           None \<Rightarrow> Inl TypeError
         | Some perProjectKey \<Rightarrow>
             (let inner1 = (if \<not> map_has perProjectKey pk
                            then map_set perProjectKey pk []
                            else perProjectKey)
              in case map_get inner1 pk of
                   None \<Rightarrow> Inl TypeError
                 | Some folders \<Rightarrow> Inr (map_set m1 cid (map_set inner1 pk (folders @ [bf])))))"

text \<open>\<^verbatim>\<open>binding.connectionId || binding.serverId || DEFAULT_CONNECTION_ID\<close>\<close>

definition effectiveConnectionId :: "ProjectBinding \<Rightarrow> string" where
  "effectiveConnectionId b =
     or_default (or_else (connectionId b) (serverId b)) DEFAULT_CONNECTION_ID"

text \<open>
  \<^verbatim>\<open>
  getAllBindings(): Map<string, Map<string, BoundFolder[]>> {
    const bindingsPerConnectionId = new Map<string, Map<string, BoundFolder[]>>();
    for (const folder of VSCode.workspace.workspaceFolders || []) {
      const config = VSCode.workspace.getConfiguration(SONARLINT_CATEGORY, folder.uri);
      const binding = config.get<ProjectBinding>(BINDING_SETTINGS);
      const projectKey = binding.projectKey;
      if (projectKey) {
        const connectionId = binding.connectionId || binding.serverId || DEFAULT_CONNECTION_ID;
        ...
      }
    }
    return bindingsPerConnectionId;
  }
  \<close>
\<close>

fun getAllBindings_loop :: "workspace \<Rightarrow> WorkspaceFolder list \<Rightarrow> bindings \<Rightarrow> error + bindings" where
  "getAllBindings_loop w [] acc = Inr acc"
| "getAllBindings_loop w (f # fs) acc =
     (let b = config_get w (uri f) in
      case projectKey b of
        None \<Rightarrow> getAllBindings_loop w fs acc
      | Some pk \<Rightarrow>
          if pk = [] then getAllBindings_loop w fs acc
          else (case addBoundFolder acc (effectiveConnectionId b) pk \<lparr>folder = f, binding = b\<rparr> of
                  Inl e \<Rightarrow> Inl e
                | Inr acc' \<Rightarrow> getAllBindings_loop w fs acc'))"

definition getAllBindings :: "workspace \<Rightarrow> error + bindings" where
  "getAllBindings w = getAllBindings_loop w (folders_of w) []"

subsection \<open>deleteBindingsForConnection\<close>

text \<open>
  A connection of the tree view (class \<^verbatim>\<open>Connection\<close> of connections.ts, not among the
  sources); \<open>deleteBindingsForConnection\<close> reads its \<^verbatim>\<open>id\<close> only.
\<close>

record Connection =
  conn_id :: "string option"

text \<open>
  \<^verbatim>\<open>
  async deleteBindingsForConnection(connection: Connection) {
    const connectionId = connection.id || DEFAULT_CONNECTION_ID;
    const allBindings = this.getAllBindings();
    const bindingsForConnection: Map<string, BoundFolder[]> = allBindings.get(connectionId);
    if (bindingsForConnection) {
      for (const folders of bindingsForConnection.values()) {
        await Promise.all(folders.map(f => this.deleteBinding(f)));
      }
    }
  }
  \<close>
  The deletions of one \<^verbatim>\<open>Promise.all\<close> are started in the order of the array; each one
  writes the setting of its own folder, so they are run one after the other here.
\<close>

definition deleteBindingsForConnection :: "Connection \<Rightarrow> workspace \<Rightarrow> error + workspace" where
  "deleteBindingsForConnection connection w =
     (let cid = or_default (conn_id connection) DEFAULT_CONNECTION_ID in
      case getAllBindings w of
        Inl e \<Rightarrow> Inl e
      | Inr allBindings \<Rightarrow>
          (case map_get allBindings cid of
             None \<Rightarrow> Inr w
           | Some bindingsForConnection \<Rightarrow>
               Inr (fold (\<lambda>folders w1. fold (\<lambda>f. deleteBinding (Bound f)) folders w1)
                      (map snd bindingsForConnection) w)))"

subsection \<open>deduplicateQuickPickItems\<close>

text \<open>
  A quick-pick item: its label, its optional description and its buttons (icon and
  tooltip).
\<close>

record QuickPickItem =
  label :: string
  description :: "string option"
  buttons :: "(string \<times> string) list"

text \<open>
  Arrays are objects of the heap, passed by reference: the claim that an argument is left
  unchanged is about the array the caller holds. A heap maps references to array
  contents; references below \<open>next_ref\<close> are allocated. \<^verbatim>\<open>Array.prototype.filter\<close>
  allocates a new array and leaves its receiver as it is.
\<close>

record heap =
  arrays :: "nat \<Rightarrow> QuickPickItem list"
  next_ref :: nat

definition array_filter :: "(QuickPickItem \<Rightarrow> bool) \<Rightarrow> nat \<Rightarrow> heap \<Rightarrow> nat \<times> heap" where
  "array_filter P a h =
     (next_ref h,
      h\<lparr>arrays := (arrays h)(next_ref h := filter P (arrays h a)), next_ref := Suc (next_ref h)\<rparr>)"

text \<open>
  \<^verbatim>\<open>
  private deduplicateQuickPickItems(suggestedProjects: VSCode.QuickPickItem[],
                                    remoteProjects: VSCode.QuickPickItem[]) {
    suggestedProjects.forEach(sp => {
      remoteProjects = remoteProjects.filter(rp => rp.description !== sp.description);
    });
    return remoteProjects;
  }
  \<close>
  \<^verbatim>\<open>forEach\<close> fixes the number of indices it visits when it starts, and at each index
  reads the element the array holds then (an index the array no longer has is skipped).
  The state of the loop is the local variable \<open>remoteProjects\<close> and the heap.
\<close>

definition dedup_step :: "nat \<Rightarrow> nat \<Rightarrow> nat \<times> heap \<Rightarrow> nat \<times> heap" where
  "dedup_step suggestedProjects i st =
     (case st of (remoteProjects, h) \<Rightarrow>
        if i < length (arrays h suggestedProjects)
        then array_filter
               (\<lambda>rp. description rp \<noteq> description (arrays h suggestedProjects ! i))
               remoteProjects h
        else (remoteProjects, h))"

definition deduplicateQuickPickItems :: "nat \<Rightarrow> nat \<Rightarrow> heap \<Rightarrow> nat \<times> heap" where
  "deduplicateQuickPickItems suggestedProjects remoteProjects h =
     fold (dedup_step suggestedProjects) [0..<length (arrays h suggestedProjects)] (remoteProjects, h)"

subsection \<open>showFolderSelectionQuickPickOrReturnDefaultSelection\<close>

text \<open>
  \<^verbatim>\<open>
  async showFolderSelectionQuickPickOrReturnDefaultSelection(
      workspaceFolders: readonly VSCode.WorkspaceFolder[]) {
    return workspaceFolders.length === 1
      ? workspaceFolders[0].name
      : VSCode.window.showQuickPick(
          workspaceFolders.map(f => f.name),
          { title: 'Select Folder to Bind',
            placeHolder: 'Select the workspace folder you want to create binding for' });
  }
  \<close>
  The parameter \<open>showQuickPick\<close> is the user: it maps the names offered to the name
  picked, or to \<^verbatim>\<open>undefined\<close> when the quick-pick is dismissed.
\<close>

definition showFolderSelectionQuickPickOrReturnDefaultSelection ::
  "(string list \<Rightarrow> string option) \<Rightarrow> WorkspaceFolder list \<Rightarrow> string option \<times> ui_event list" where
  "showFolderSelectionQuickPickOrReturnDefaultSelection showQuickPick folders =
     (if length folders = 1
      then (Some (name (folders ! 0)), [])
      else (showQuickPick (map name folders),
            [ShowQuickPick (map name folders)
               ''Select Folder to Bind''
               ''Select the workspace folder you want to create binding for'']))"

subsection \<open>getRemoteProjectsItems\<close>

text \<open>
  The language client answers the request for the remote projects of a connection with a
  \<^verbatim>\<open>Map\<close> or with a plain object from project key to project name, or the request
  fails. \<^verbatim>\<open>new Map(Object.entries(o))\<close> enters the properties of \<open>o\<close> one by one.
\<close>

datatype remote_projects =
    AsMap "(string \<times> string) list"
  | AsObject "(string \<times> string) list"

definition new_Map :: "(string \<times> string) list \<Rightarrow> (string \<times> string) list" where
  "new_Map es = fold (\<lambda>kv m. map_set m (fst kv) (snd kv)) es []"

text \<open>
  \<^verbatim>\<open>Array.prototype.sort\<close> with a comparison function is a stable sort: for a
  comparison function that orders its arguments consistently, the result is the one of
  inserting each element, from the last to the first, before the first element that does
  not come before it.
\<close>

fun insert_sorted :: "('a \<Rightarrow> 'a \<Rightarrow> int) \<Rightarrow> 'a \<Rightarrow> 'a list \<Rightarrow> 'a list" where
  "insert_sorted compareFn x [] = [x]"
| "insert_sorted compareFn x (y # ys) =
     (if compareFn x y \<le> 0 then x # y # ys else y # insert_sorted compareFn x ys)"

definition array_sort :: "('a \<Rightarrow> 'a \<Rightarrow> int) \<Rightarrow> 'a list \<Rightarrow> 'a list" where
  "array_sort compareFn xs = foldr (insert_sorted compareFn) xs []"

text \<open>The item pushed for one entry of the map: \<open>v\<close> is the project name, \<open>k\<close> the key.\<close>

definition remoteProjectItem :: "string \<Rightarrow> string \<times> string \<Rightarrow> QuickPickItem" where
  "remoteProjectItem serverType kv =
     \<lparr>label = snd kv, description = Some (fst kv),
      buttons = [(''link-external'', ''View in '' @ serverType)]\<rparr>"

text \<open>
  \<^verbatim>\<open>
  async getRemoteProjectsItems(connectionId: string, workspaceFolder: VSCode.WorkspaceFolder,
                               serverType: ServerType) {
    const getRemoteProjectsParam = connectionId ? connectionId : DEFAULT_CONNECTION_ID;
    const itemsList: VSCode.QuickPickItem[] = [];
    try {
      let remoteProjects = await this.getRemoteProjects(getRemoteProjectsParam);
      if (!(remoteProjects instanceof Map)) {
        remoteProjects = new Map(Object.entries(remoteProjects));
      }
      if (remoteProjects.size === 0) {
        VSCode.window.showWarningMessage('No remote projects to display.', BIND_MANUALLY_ACTION)
          .then(...);
      }
      remoteProjects.forEach((v, k) => { itemsList.push({ label: v, description: k, buttons: [...] }); });
    } catch {
      VSCode.window.showErrorMessage(
        'Request Failed: Could not get the list of remote projects.' + ' Please check the connection.');
    }
    itemsList.sort((i1, i2) => i1.label.localeCompare(i2.label, 'en'));
    return itemsList;
  }
  \<close>
  The comparison of two strings in the English locale is the parameter \<open>localeCompare\<close>,
  the request of the language client the parameter \<open>getRemoteProjects\<close>. The folder
  argument is used only by the action that the user may start from the warning after the
  function has returned; it is left out.
\<close>

definition getRemoteProjectsItems ::
  "(string \<Rightarrow> string \<Rightarrow> int) \<Rightarrow> (string \<Rightarrow> error + remote_projects) \<Rightarrow>
   string option \<Rightarrow> string \<Rightarrow> QuickPickItem list \<times> ui_event list" where
  "getRemoteProjectsItems localeCompare getRemoteProjects cid serverType =
     (let getRemoteProjectsParam = or_default cid DEFAULT_CONNECTION_ID;
          tried =
            (case getRemoteProjects getRemoteProjectsParam of
               Inl e \<Rightarrow>
                 ([], [ShowErrorMessage
                         (''Request Failed: Could not get the list of remote projects.''
                          @ '' Please check the connection.'')])
             | Inr response \<Rightarrow>
                 (let remoteProjects =
                        (case response of AsMap m \<Rightarrow> m | AsObject es \<Rightarrow> new_Map es)
                  in (map (remoteProjectItem serverType) remoteProjects,
                      if length remoteProjects = 0
                      then [ShowWarningMessage ''No remote projects to display.'' [BIND_MANUALLY_ACTION]]
                      else [])))
      in (array_sort (\<lambda>i1 i2. localeCompare (label i1) (label i2)) (fst tried), snd tried))"

section \<open>extension.ts: performIsIgnoredCheck\<close>

text \<open>
  What the function asks of the editor and of the git extension: the workspace folder of
  a file, the extension registered under an identifier (\<^verbatim>\<open>undefined\<close> when there is
  none), the interface an extension exports, the interface of git (\<^verbatim>\<open>getAPI\<close> may
  raise), the repository of a file, and the file-system path of a URI.
\<close>

record Repository =
  rootUri_fsPath :: string

record GitAPI =
  git_path :: string
  getRepository :: "string \<Rightarrow> Repository option"

record GitExtension =
  getAPI :: "nat \<Rightarrow> error + GitAPI"

record Extension =
  exports :: "GitExtension option"

record host =
  getWorkspaceFolder :: "string \<Rightarrow> WorkspaceFolder option"
  getExtension :: "string \<Rightarrow> Extension option"
  fsPath :: "string \<Rightarrow> string"

text \<open>The lines written to the output channel, each with the file URI it names.\<close>

datatype log_line =
    NotInWorkspace string
  | GitNotInstalled string
  | NotInGitRepo string
  | ErrorRequestingIgnoredStatus string

text \<open>\<^verbatim>\<open>`"${gitPath}" check-ignore "${parsedFileUri.fsPath}"`\<close>\<close>

definition check_ignore_command :: "string \<Rightarrow> string \<Rightarrow> string" where
  "check_ignore_command gitPath filePath =
     [CHR 0x22] @ gitPath @ [CHR 0x22] @ '' check-ignore '' @ [CHR 0x22] @ filePath @ [CHR 0x22]"

text \<open>
  \<^verbatim>\<open>
  export async function performIsIgnoredCheck(fileUri: string,
      scmCheck: (workspaceFolderPath: string, gitCommand: string) => Promise<boolean>)
      : Promise<boolean> {
    const parsedFileUri = VSCode.Uri.parse(fileUri);
    const workspaceFolder = VSCode.workspace.getWorkspaceFolder(parsedFileUri);
    if (workspaceFolder == null) {
      logToSonarLintOutput(`The '${fileUri}' file is not in the workspace, consider as not ignored`);
      return Promise.resolve(false);
    }
    const gitExtension = VSCode.extensions.getExtension<GitExtension>('vscode.git').exports;
    if (gitExtension == null) {
      logToSonarLintOutput(`The git extension is not installed, consider the '${fileUri}' file as not ignored`);
      return Promise.resolve(false);
    }
    try {
      const gitApi = gitExtension.getAPI(1);
      const gitPath = gitApi.git.path;
      const repo = gitApi.getRepository(parsedFileUri);
      if (repo) {
        const command = `"${gitPath}" check-ignore "${parsedFileUri.fsPath}"`;
        const fileIgnoredForFolder = await scmCheck(repo.rootUri.fsPath, command);
        return Promise.resolve(fileIgnoredForFolder);
      } else {
        logToSonarLintOutput(`The '${fileUri}' file is not in a git repo, consider as not ignored`);
        return Promise.resolve(false);
      }
    } catch (e) {
      logToSonarLintOutput(`Error requesting ignored status, consider the '${fileUri}' file as not ignored`);
      return Promise.resolve(false);
    }
  }
  \<close>
  The result is the outcome of the returned promise (\<open>Inl\<close> when it is rejected) and the
  lines logged. Reading \<^verbatim>\<open>.exports\<close> of the \<^verbatim>\<open>undefined\<close> that \<^verbatim>\<open>getExtension\<close> returns
  for an extension that is not there raises, and that statement stands before the
  \<^verbatim>\<open>try\<close>. The file URI is a well-formed one, which \<^verbatim>\<open>Uri.parse\<close> accepts.
\<close>

definition performIsIgnoredCheck ::
  "host \<Rightarrow> string \<Rightarrow> (string \<Rightarrow> string \<Rightarrow> error + bool) \<Rightarrow> (error + bool) \<times> log_line list" where
  "performIsIgnoredCheck h fileUri scmCheck =
     (case getWorkspaceFolder h fileUri of
        None \<Rightarrow> (Inr False, [NotInWorkspace fileUri])
      | Some workspaceFolder \<Rightarrow>
          (case getExtension h ''vscode.git'' of
             None \<Rightarrow> (Inl TypeError, [])
           | Some extension \<Rightarrow>
               (case exports extension of
                  None \<Rightarrow> (Inr False, [GitNotInstalled fileUri])
                | Some gitExtension \<Rightarrow>
                    (case getAPI gitExtension 1 of
                       Inl e \<Rightarrow> (Inr False, [ErrorRequestingIgnoredStatus fileUri])
                     | Inr gitApi \<Rightarrow>
                         (case getRepository gitApi fileUri of
                            None \<Rightarrow> (Inr False, [NotInGitRepo fileUri])
                          | Some repo \<Rightarrow>
                              (case scmCheck (rootUri_fsPath repo)
                                      (check_ignore_command (git_path gitApi) (fsPath h fileUri)) of
                                 Inl e \<Rightarrow> (Inr False, [ErrorRequestingIgnoredStatus fileUri])
                               | Inr fileIgnoredForFolder \<Rightarrow> (Inr fileIgnoredForFolder, [])))))))"

section \<open>Notions used to state the properties\<close>

text \<open>
  The entries of a map of lists, one pair per element of a list, and the entries of the
  result of \<open>getAllBindings\<close>: the triples of a connection id, a project key and a bound
  folder listed under them.
\<close>

definition flatten :: "('v \<Rightarrow> 'x list) \<Rightarrow> ('k \<times> 'v) list \<Rightarrow> ('k \<times> 'x) list" where
  "flatten g m = concat (map (\<lambda>(k, v). map (Pair k) (g v)) m)"

definition entries :: "bindings \<Rightarrow> (string \<times> string \<times> BoundFolder) list" where
  "entries r = flatten (flatten (\<lambda>fs. fs)) r"

text \<open>No key occurs twice, in the outer map or in an inner one.\<close>

definition keys_distinct :: "bindings \<Rightarrow> bool" where
  "keys_distinct r = (distinct (map fst r) \<and> (\<forall>ci \<in> set r. distinct (map fst (snd ci))))"

text \<open>What a map holds under a key before an element is added: nothing counts as empty.\<close>

definition old_inner :: "bindings \<Rightarrow> string \<Rightarrow> (string \<times> BoundFolder list) list" where
  "old_inner acc c = (case map_of acc c of None \<Rightarrow> [] | Some i \<Rightarrow> i)"

definition old_list :: "(string \<times> BoundFolder list) list \<Rightarrow> string \<Rightarrow> BoundFolder list" where
  "old_list inner p = (case map_of inner p of None \<Rightarrow> [] | Some l \<Rightarrow> l)"

text \<open>The entry that a bound folder contributes to the result of \<open>getAllBindings\<close>.\<close>

definition entry_of :: "workspace \<Rightarrow> WorkspaceFolder \<Rightarrow> string \<times> string \<times> BoundFolder" where
  "entry_of w f =
     (let b = config_get w (uri f)
      in (effectiveConnectionId b, the (projectKey b), \<lparr>folder = f, binding = b\<rparr>))"

text \<open>A folder is bound to a connection id: bound, with that effective connection id.\<close>

definition boundTo :: "workspace \<Rightarrow> string \<Rightarrow> WorkspaceFolder \<Rightarrow> bool" where
  "boundTo w c f = (isBound w f \<and> effectiveConnectionId (config_get w (uri f)) = c)"

text \<open>The folder that an argument of \<open>deleteBinding\<close> designates.\<close>

definition item_folder :: "binding_item \<Rightarrow> WorkspaceFolder" where
  "item_folder item = (case item of TreeItem i \<Rightarrow> item_uri i | Bound b \<Rightarrow> folder b)"

text \<open>The entries of an answer of the language client, as the function iterates them.\<close>

definition remote_entries :: "remote_projects \<Rightarrow> (string \<times> string) list" where
  "remote_entries response = (case response of AsMap m \<Rightarrow> m | AsObject es \<Rightarrow> new_Map es)"

section \<open>Example data\<close>

definition folderA :: WorkspaceFolder where
  "folderA = \<lparr>uri = ''file:///a'', name = ''a'', index = 0\<rparr>"

definition folderB :: WorkspaceFolder where
  "folderB = \<lparr>uri = ''file:///b'', name = ''b'', index = 1\<rparr>"

definition noBinding :: ProjectBinding where
  "noBinding = \<lparr>projectKey = None, serverId = None, connectionId = None\<rparr>"

definition bindingA :: ProjectBinding where
  "bindingA = \<lparr>projectKey = Some ''p'', serverId = None, connectionId = Some ''c1''\<rparr>"

text \<open>
  What \<open>bindManuallyAction\<close> stores for a folder without a binding:
  \<^verbatim>\<open>{ connectionId: '', projectKey: '' }\<close>.
\<close>

definition placeholderBinding :: ProjectBinding where
  "placeholderBinding = \<lparr>projectKey = Some [], serverId = None, connectionId = Some []\<rparr>"

text \<open>Two folders: one bound to project \<open>p\<close> of connection \<open>c1\<close>, one with the placeholder.\<close>

definition exampleWorkspace :: workspace where
  "exampleWorkspace =
     \<lparr>workspaceFolders = Some [folderA, folderB],
      folderValue = (\<lambda>u. None)(''file:///a'' := Some bindingA, ''file:///b'' := Some placeholderBinding),
      inheritedValue = noBinding\<rparr>"

text \<open>One folder with its own binding, in a workspace whose user settings hold a binding too.\<close>

definition inheritingWorkspace :: workspace where
  "inheritingWorkspace =
     \<lparr>workspaceFolders = Some [folderA],
      folderValue = (\<lambda>u. None)(''file:///a'' := Some bindingA),
      inheritedValue = \<lparr>projectKey = Some ''q'', serverId = None, connectionId = Some ''c2''\<rparr>\<rparr>"

definition pickItem :: "string \<Rightarrow> string \<Rightarrow> QuickPickItem" where
  "pickItem l d = \<lparr>label = l, description = Some d, buttons = []\<rparr>"

text \<open>Array \<open>0\<close> holds the suggested items, array \<open>1\<close> the remote ones.\<close>

definition exampleHeap :: heap where
  "exampleHeap =
     \<lparr>arrays = (\<lambda>a. [])(0 := [pickItem ''Alpha'' ''k1''],
                         1 := [pickItem ''Beta'' ''k2'', pickItem ''Alpha'' ''k1'', pickItem ''Gamma'' ''k3'']),
      next_ref = 2\<rparr>"

text \<open>A comparison of strings by their lexicographic order, total and transitive.\<close>

definition compareStrings :: "string \<Rightarrow> string \<Rightarrow> int" where
  "compareStrings a b = (if a < b then - 1 else if a = b then 0 else 1)"

text \<open>A language client that knows the projects of connection \<open>c1\<close> and fails otherwise.\<close>

definition exampleClient :: "string \<Rightarrow> error + remote_projects" where
  "exampleClient c =
     (if c = ''c1'' then Inr (AsObject [(''k2'', ''Beta''), (''k1'', ''Alpha'')])
      else Inl RequestFailed)"

text \<open>
  An editor in which the file lies in a workspace folder and no extension is registered
  under \<^verbatim>\<open>vscode.git\<close> (the built-in git extension is disabled).
\<close>

definition hostWithoutGit :: host where
  "hostWithoutGit =
     \<lparr>getWorkspaceFolder = (\<lambda>u. Some folderA),
      getExtension = (\<lambda>i. None),
      fsPath = (\<lambda>u. drop 7 u)\<rparr>"

lemmas example_defs =
  exampleWorkspace_def folderA_def folderB_def noBinding_def bindingA_def placeholderBinding_def

lemmas binding_defs =
  getAllBindings_def folders_of_def config_get_def config_update_def mergeBinding_def
  effectiveConnectionId_def or_else_def or_default_def truthy_def DEFAULT_CONNECTION_ID_def
  addBoundFolder_def map_has_def map_get_def map_set_def isBound_def Let_def

section \<open>Properties of cleanRemoteName\<close>

lemma indexOfFrom_range: "indexOfFrom t s i = - 1 \<or> int i \<le> indexOfFrom t s i"
proof (induction s arbitrary: i)
  case Nil
  show ?case by simp
next
  case (Cons c s)
  from Cons.IH [of "Suc i"] show ?case by auto
qed

lemma indexOfFrom_start: "(indexOfFrom t s i = int i) = prefix t s"
proof (cases s)
  case Nil
  then show ?thesis by auto
next
  case (Cons c s')
  from indexOfFrom_range [of t s' "Suc i"] Cons show ?thesis by auto
qed

lemma indexOf_zero: "(indexOf s t = 0) = prefix t s"
  using indexOfFrom_start [of t s 0] by (simp add: indexOf_def)

lemma prefix_same_head:
  assumes "prefix r s" and "r \<noteq> []"
  shows "s \<noteq> [] \<and> hd s = hd r"
  using assms by (cases r; cases s) auto

text \<open>The five names start with five different letters: no string starts with two of them.\<close>

lemma allowedRemotes_exclusive:
  assumes "r \<in> set allowedRemotes" and "r' \<in> set allowedRemotes"
    and "prefix r s" and "prefix r' s"
  shows "r = r'"
proof -
  from assms(1) have r: "r \<noteq> []" by (auto simp: allowedRemotes_def)
  from assms(2) have r': "r' \<noteq> []" by (auto simp: allowedRemotes_def)
  from prefix_same_head [OF assms(3) r] prefix_same_head [OF assms(4) r']
  have "hd r = hd r'" by simp
  with assms(1,2) show ?thesis by (auto simp: allowedRemotes_def)
qed

text \<open>The fold, unrolled: the name tested last is the first of the chain.\<close>

lemma cleanRemoteName_chain:
  "cleanRemoteName (Some s) =
     (if s = [] then ''none''
      else if prefix ''codespaces'' s then ''codespaces''
      else if prefix ''wsl'' s then ''wsl''
      else if prefix ''attached-container'' s then ''attached-container''
      else if prefix ''dev-container'' s then ''dev-container''
      else if prefix ''ssh-remote'' s then ''ssh-remote''
      else ''other'')"
  by (simp add: cleanRemoteName_def allowedRemotes_def indexOf_zero)

lemma cleanRemoteName_allowed:
  assumes "r \<in> set allowedRemotes"
  shows "(cleanRemoteName x = r) = (\<exists>s. x = Some s \<and> prefix r s)"
proof (cases x)
  case None
  with assms show ?thesis
    by (auto simp: cleanRemoteName_def allowedRemotes_def)
next
  case (Some s)
  show ?thesis
  proof
    assume "cleanRemoteName x = r"
    with Some assms have "prefix r s"
      unfolding cleanRemoteName_chain Some
      by (auto simp: allowedRemotes_def split: if_splits)
    with Some show "\<exists>s. x = Some s \<and> prefix r s" by simp
  next
    assume "\<exists>s. x = Some s \<and> prefix r s"
    with Some have p: "prefix r s" by simp
    from assms have rne: "r \<noteq> []" by (auto simp: allowedRemotes_def)
    with p have sne: "s \<noteq> []" by auto
    have excl: "\<And>r'. r' \<in> set allowedRemotes \<Longrightarrow> prefix r' s \<Longrightarrow> r' = r"
      using allowedRemotes_exclusive [OF _ assms _ p] by blast
    have mem: "''codespaces'' \<in> set allowedRemotes" "''wsl'' \<in> set allowedRemotes"
      "''attached-container'' \<in> set allowedRemotes" "''dev-container'' \<in> set allowedRemotes"
      "''ssh-remote'' \<in> set allowedRemotes"
      by (simp_all add: allowedRemotes_def)
    from assms p show "cleanRemoteName x = r"
      unfolding Some cleanRemoteName_chain
      using sne excl [OF mem(1)] excl [OF mem(2)] excl [OF mem(3)] excl [OF mem(4)] excl [OF mem(5)]
      by (auto simp: allowedRemotes_def)
  qed
qed

text \<open>
  Claim C9. For every optional input string, \<open>cleanRemoteName\<close> returns one of \<open>none\<close>,
  \<open>other\<close> and the five allowed remote names; it returns \<open>none\<close> exactly when the input
  is absent or empty; it returns an allowed name \<open>r\<close> exactly when the input starts with
  \<open>r\<close>; and it returns \<open>other\<close> exactly when the input is a non-empty string that starts
  with none of the allowed names. A later name of the list overrides an earlier one in
  the fold; as no input starts with two of the names, at most one name ever matches.
\<close>

theorem cleanRemoteName_spec:
  "cleanRemoteName x \<in> set ([''none'', ''other''] @ allowedRemotes)
   \<and> ((cleanRemoteName x = ''none'') = (x = None \<or> x = Some []))
   \<and> (\<forall>r \<in> set allowedRemotes. (cleanRemoteName x = r) = (\<exists>s. x = Some s \<and> prefix r s))
   \<and> ((cleanRemoteName x = ''other'') =
        (\<exists>s. x = Some s \<and> s \<noteq> [] \<and> (\<forall>r \<in> set allowedRemotes. \<not> prefix r s)))"
proof (intro conjI)
  show "cleanRemoteName x \<in> set ([''none'', ''other''] @ allowedRemotes)"
  proof (cases x)
    case None
    then show ?thesis by (simp add: cleanRemoteName_def)
  next
    case (Some s)
    show ?thesis unfolding Some cleanRemoteName_chain by (simp add: allowedRemotes_def)
  qed
  show "(cleanRemoteName x = ''none'') = (x = None \<or> x = Some [])"
  proof (cases x)
    case None
    then show ?thesis by (simp add: cleanRemoteName_def)
  next
    case (Some s)
    show ?thesis unfolding Some cleanRemoteName_chain by simp
  qed
  show "\<forall>r \<in> set allowedRemotes. (cleanRemoteName x = r) = (\<exists>s. x = Some s \<and> prefix r s)"
    using cleanRemoteName_allowed by blast
  show "(cleanRemoteName x = ''other'') =
        (\<exists>s. x = Some s \<and> s \<noteq> [] \<and> (\<forall>r \<in> set allowedRemotes. \<not> prefix r s))"
  proof (cases x)
    case None
    then show ?thesis by (simp add: cleanRemoteName_def)
  next
    case (Some s)
    show ?thesis unfolding Some cleanRemoteName_chain by (simp add: allowedRemotes_def)
  qed
qed

theorem cleanRemoteName_spec_witness:
  "cleanRemoteName (Some ''wsl+Ubuntu'') = ''wsl''
   \<and> cleanRemoteName (Some ''wsl+Ubuntu'') \<in> set ([''none'', ''other''] @ allowedRemotes)
   \<and> ''wsl'' \<in> set allowedRemotes
   \<and> prefix ''wsl'' ''wsl+Ubuntu''"
proof -
  have m: "''wsl'' \<in> set allowedRemotes" by (simp add: allowedRemotes_def)
  have p: "prefix ''wsl'' ''wsl+Ubuntu''" by simp
  from cleanRemoteName_spec [of "Some ''wsl+Ubuntu''"] m
  have "(cleanRemoteName (Some ''wsl+Ubuntu'') = ''wsl'') =
          (\<exists>s. Some ''wsl+Ubuntu'' = Some s \<and> prefix ''wsl'' s)"
    by blast
  with p have "cleanRemoteName (Some ''wsl+Ubuntu'') = ''wsl''" by simp
  with m p cleanRemoteName_spec [of "Some ''wsl+Ubuntu''"] show ?thesis by simp
qed

section \<open>The result of getAllBindings\<close>

lemma flatten_Nil [simp]: "flatten g [] = []"
  by (simp add: flatten_def)

lemma flatten_Cons [simp]: "flatten g ((k, v) # m) = map (Pair k) (g v) @ flatten g m"
  by (simp add: flatten_def)

lemma flatten_update_absent:
  "map_of m k = None \<Longrightarrow>
   mset (flatten g (AList.update k v' m)) = mset (flatten g m) + image_mset (Pair k) (mset (g v'))"
  by (induction m) (auto split: if_splits)

lemma flatten_update_present:
  "map_of m k = Some v \<Longrightarrow> mset (g v') = mset (g v) + X \<Longrightarrow>
   mset (flatten g (AList.update k v' m)) = mset (flatten g m) + image_mset (Pair k) X"
  by (induction m) (auto split: if_splits)

lemma flatten_member:
  "distinct (map fst m) \<Longrightarrow>
   ((k, x) \<in> set (flatten g m)) = (\<exists>v. map_of m k = Some v \<and> x \<in> set (g v))"
  by (induction m) (auto simp: rev_image_eqI)

text \<open>The loop body never raises: it adds the folder to the list under its two keys.\<close>

lemma addBoundFolder_closed:
  "addBoundFolder acc c p bf =
     Inr (AList.update c (AList.update p (old_list (old_inner acc c) p @ [bf]) (old_inner acc c)) acc)"
  by (auto simp: addBoundFolder_def map_has_def map_get_def map_set_def old_inner_def old_list_def
        AList.update_conv' Let_def split: option.splits)

lemma flatten_inner_add:
  "mset (flatten (\<lambda>fs. fs) (AList.update p (old_list inner p @ [bf]) inner))
     = mset (flatten (\<lambda>fs. fs) inner) + {#(p, bf)#}"
proof (cases "map_of inner p")
  case None
  then show ?thesis
    using flatten_update_absent [of inner p "\<lambda>fs. fs" "[bf]"] by (simp add: old_list_def)
next
  case (Some l)
  then show ?thesis
    using flatten_update_present [of inner p l "\<lambda>fs. fs" "l @ [bf]" "{#bf#}"]
    by (simp add: old_list_def)
qed

lemma entries_add:
  "mset (entries (AList.update c (AList.update p (old_list (old_inner acc c) p @ [bf]) (old_inner acc c)) acc))
     = add_mset (c, p, bf) (mset (entries acc))"
proof (cases "map_of acc c")
  case None
  then have oi: "old_inner acc c = []" by (simp add: old_inner_def)
  show ?thesis
    unfolding entries_def oi
    using flatten_update_absent [OF None, of "flatten (\<lambda>fs. fs)" "AList.update p (old_list [] p @ [bf]) []"]
    by (simp add: old_list_def)
next
  case (Some i)
  then have oi: "old_inner acc c = i" by (simp add: old_inner_def)
  show ?thesis
    unfolding entries_def oi
    using flatten_update_present [OF Some, of "flatten (\<lambda>fs. fs)"
            "AList.update p (old_list i p @ [bf]) i" "{#(p, bf)#}"]
          flatten_inner_add [of p i bf]
    by simp
qed

lemma set_update_subset: "set (AList.update k v m) \<subseteq> insert (k, v) (set m)"
  by (induction m) auto

lemma keys_distinct_add:
  assumes "keys_distinct acc"
  shows "keys_distinct (AList.update c (AList.update p l (old_inner acc c)) acc)"
proof -
  have "distinct (map fst (old_inner acc c))"
  proof (cases "map_of acc c")
    case None
    then show ?thesis by (simp add: old_inner_def)
  next
    case (Some i)
    then have "(c, i) \<in> set acc" by (rule map_of_SomeD)
    with assms Some show ?thesis by (auto simp: keys_distinct_def old_inner_def)
  qed
  then have "distinct (map fst (AList.update p l (old_inner acc c)))"
    by (rule AList.distinct_update)
  moreover from assms have "distinct (map fst (AList.update c (AList.update p l (old_inner acc c)) acc))"
    by (simp add: keys_distinct_def AList.distinct_update)
  ultimately show ?thesis
    using assms set_update_subset [of c "AList.update p l (old_inner acc c)" acc]
    by (auto simp: keys_distinct_def)
qed

lemma getAllBindings_loop_entries:
  "keys_distinct acc \<Longrightarrow>
   \<exists>r. getAllBindings_loop w fs acc = Inr r \<and> keys_distinct r \<and>
       mset (entries r) =
         mset (entries acc) + mset (map (entry_of w) (filter (\<lambda>f. truthy (projectKey (config_get w (uri f)))) fs))"
proof (induction fs arbitrary: acc)
  case Nil
  then show ?case by simp
next
  case (Cons f fs)
  let ?b = "config_get w (uri f)"
  show ?case
  proof (cases "truthy (projectKey ?b)")
    case False
    then have "getAllBindings_loop w (f # fs) acc = getAllBindings_loop w fs acc"
      by (auto simp: truthy_def Let_def split: option.splits)
    with Cons.IH [OF Cons.prems] False show ?thesis by simp
  next
    case True
    then obtain pk where pk: "projectKey ?b = Some pk" "pk \<noteq> []"
      by (auto simp: truthy_def split: option.splits)
    let ?acc' = "AList.update (effectiveConnectionId ?b)
        (AList.update pk (old_list (old_inner acc (effectiveConnectionId ?b)) pk @ [\<lparr>folder = f, binding = ?b\<rparr>])
           (old_inner acc (effectiveConnectionId ?b))) acc"
    have step: "getAllBindings_loop w (f # fs) acc = getAllBindings_loop w fs ?acc'"
      using pk by (simp add: Let_def addBoundFolder_closed)
    have kd: "keys_distinct ?acc'" using Cons.prems by (rule keys_distinct_add)
    have en: "mset (entries ?acc') = add_mset (entry_of w f) (mset (entries acc))"
      using pk by (simp add: entries_add entry_of_def Let_def)
    from Cons.IH [OF kd] step en True show ?thesis by auto
  qed
qed

text \<open>
  \<open>getAllBindings\<close> returns, and the entries of its result are those of the folders with
  a truthy project key, each once.
\<close>

lemma getAllBindings_entries:
  "\<exists>r. getAllBindings w = Inr r \<and> keys_distinct r \<and>
       mset (entries r) =
         mset (map (entry_of w) (filter (\<lambda>f. truthy (projectKey (config_get w (uri f)))) (folders_of w)))"
  using getAllBindings_loop_entries [of "[]" w "folders_of w"]
  by (simp add: getAllBindings_def keys_distinct_def entries_def)

lemma entries_member:
  assumes "keys_distinct r"
  shows "((c, p, bf) \<in> set (entries r)) =
         (\<exists>inner l. map_get r c = Some inner \<and> map_get inner p = Some l \<and> bf \<in> set l)"
proof -
  from assms have d: "distinct (map fst r)" by (simp add: keys_distinct_def)
  have "((c, p, bf) \<in> set (entries r)) =
        (\<exists>inner. map_of r c = Some inner \<and> (p, bf) \<in> set (flatten (\<lambda>fs. fs) inner))"
    unfolding entries_def by (rule flatten_member [OF d])
  also have "\<dots> = (\<exists>inner l. map_of r c = Some inner \<and> map_of inner p = Some l \<and> bf \<in> set l)"
  proof -
    have "\<And>inner. map_of r c = Some inner \<Longrightarrow>
            ((p, bf) \<in> set (flatten (\<lambda>fs. fs) inner)) = (\<exists>l. map_of inner p = Some l \<and> bf \<in> set l)"
    proof -
      fix inner assume "map_of r c = Some inner"
      then have "(c, inner) \<in> set r" by (rule map_of_SomeD)
      with assms have "distinct (map fst inner)" by (auto simp: keys_distinct_def)
      then show "((p, bf) \<in> set (flatten (\<lambda>fs. fs) inner)) = (\<exists>l. map_of inner p = Some l \<and> bf \<in> set l)"
        by (rule flatten_member)
    qed
    then show ?thesis by auto
  qed
  finally show ?thesis by (simp add: map_get_def)
qed

lemma getAllBindings_member:
  "\<exists>r. getAllBindings w = Inr r \<and> keys_distinct r \<and>
     (\<forall>c p bf. (\<exists>inner l. map_get r c = Some inner \<and> map_get inner p = Some l \<and> bf \<in> set l)
        = (\<exists>f \<in> set (folders_of w). isBound w f \<and> (c, p, bf) = entry_of w f))"
proof -
  from getAllBindings_entries [of w] obtain r where r: "getAllBindings w = Inr r" "keys_distinct r"
    "mset (entries r) = mset (map (entry_of w) (filter (\<lambda>f. truthy (projectKey (config_get w (uri f)))) (folders_of w)))"
    by blast
  from r(3) have "set (entries r) = set (map (entry_of w) (filter (\<lambda>f. truthy (projectKey (config_get w (uri f)))) (folders_of w)))"
    by (rule mset_eq_setD)
  then have "\<And>c p bf. ((c, p, bf) \<in> set (entries r)) = (\<exists>f \<in> set (folders_of w). isBound w f \<and> (c, p, bf) = entry_of w f)"
    by (auto simp: isBound_def)
  with r(1,2) entries_member [OF r(2)] show ?thesis by simp
qed

lemma folders_of_config_update [simp]: "folders_of (config_update w u v) = folders_of w"
  by (simp add: folders_of_def config_update_def)

lemma config_get_update_same:
  "config_get (config_update w u (Some b)) u = mergeBinding (inheritedValue w) b"
  by (simp add: config_get_def config_update_def)

lemma exampleWorkspace_bindings:
  "getAllBindings exampleWorkspace = Inr [(''c1'', [(''p'', [\<lparr>folder = folderA, binding = bindingA\<rparr>])])]"
  by (simp add: example_defs binding_defs)

section \<open>Saving a binding and listing the bindings\<close>

text \<open>
  Claim C1. For every folder \<open>f\<close> of the workspace, every non-empty project key \<open>p\<close> and
  every non-empty connection id \<open>c\<close>: \<open>saveBinding p c f\<close> completes, and after it
  \<open>getAllBindings\<close> returns a map whose entry for \<open>c\<close> has an entry for \<open>p\<close> whose list
  of bound folders contains \<open>f\<close>.
\<close>

theorem saveBinding_getAllBindings_roundtrip:
  assumes "f \<in> set (folders_of w)" and "p \<noteq> []" and "c \<noteq> []"
  shows "\<exists>w' ev r inner l.
           saveBinding p (Some c) (Some f) w = Inr (w', ev)
         \<and> getAllBindings w' = Inr r
         \<and> map_get r c = Some inner \<and> map_get inner p = Some l
         \<and> f \<in> folder ` set l"
proof -
  let ?b = "\<lparr>projectKey = Some p, serverId = None, connectionId = Some c\<rparr>"
  let ?w' = "config_update w (uri f) (Some ?b)"
  let ?g = "mergeBinding (inheritedValue w) ?b"
  have g: "config_get ?w' (uri f) = ?g" by (rule config_get_update_same)
  have pk: "projectKey ?g = Some p" and ci: "connectionId ?g = Some c"
    by (simp_all add: mergeBinding_def)
  from assms(2) pk g have bound: "isBound ?w' f" by (simp add: isBound_def truthy_def)
  from assms(3) ci have eff: "effectiveConnectionId ?g = c"
    by (simp add: effectiveConnectionId_def or_else_def or_default_def truthy_def)
  from g pk eff have en: "entry_of ?w' f = (c, p, \<lparr>folder = f, binding = ?g\<rparr>)"
    by (simp add: entry_of_def)
  from getAllBindings_member [of ?w'] obtain r where r: "getAllBindings ?w' = Inr r"
    and m: "\<And>c p bf. (\<exists>inner l. map_get r c = Some inner \<and> map_get inner p = Some l \<and> bf \<in> set l)
        = (\<exists>f \<in> set (folders_of ?w'). isBound ?w' f \<and> (c, p, bf) = entry_of ?w' f)"
    by blast
  from assms(1) bound en have "\<exists>f' \<in> set (folders_of ?w'). isBound ?w' f' \<and> (c, p, \<lparr>folder = f, binding = ?g\<rparr>) = entry_of ?w' f'"
    by auto
  with m [of c p "\<lparr>folder = f, binding = ?g\<rparr>"]
  obtain inner l where il: "map_get r c = Some inner" "map_get inner p = Some l"
    "\<lparr>folder = f, binding = ?g\<rparr> \<in> set l" by blast
  from il(3) have "f \<in> folder ` set l" by force
  with r il(1,2) show ?thesis by (simp add: saveBinding_def)
qed

theorem saveBinding_getAllBindings_roundtrip_witness:
  "folderB \<in> set (folders_of exampleWorkspace) \<and> ''k'' \<noteq> [] \<and> ''c1'' \<noteq> []
   \<and> (\<exists>w' ev r inner l.
           saveBinding ''k'' (Some ''c1'') (Some folderB) exampleWorkspace = Inr (w', ev)
         \<and> getAllBindings w' = Inr r
         \<and> map_get r ''c1'' = Some inner \<and> map_get inner ''k'' = Some l
         \<and> folderB \<in> folder ` set l)"
proof -
  have f: "folderB \<in> set (folders_of exampleWorkspace)"
    by (simp add: folders_of_def exampleWorkspace_def)
  have p: "''k'' \<noteq> []" and c: "''c1'' \<noteq> []" by simp_all
  from saveBinding_getAllBindings_roundtrip [OF f p c] f show ?thesis by simp
qed

text \<open>
  Claim C2. For every workspace, \<open>getAllBindings\<close> returns a map without repeated keys
  such that: its entries are exactly those of the workspace folders whose stored binding
  has a non-empty project key; a workspace folder occurs in it if and only if its binding
  has a non-empty project key; whatever is listed under a connection id and a project key
  is a workspace folder with its stored binding, the project key is the binding's, and
  the connection id is the binding's \<open>connectionId\<close> if non-empty, otherwise its
  \<open>serverId\<close> if non-empty, otherwise \<open><default>\<close>; and no entry is repeated when no
  folder is.
\<close>

theorem getAllBindings_spec:
  "\<exists>r. getAllBindings w = Inr r
     \<and> keys_distinct r
     \<and> mset (entries r) = mset (map (entry_of w) (filter (isBound w) (folders_of w)))
     \<and> (\<forall>f \<in> set (folders_of w).
           (\<exists>c p inner l bf. map_get r c = Some inner \<and> map_get inner p = Some l
                \<and> bf \<in> set l \<and> folder bf = f)
           = truthy (projectKey (config_get w (uri f))))
     \<and> (\<forall>c p inner l bf.
           map_get r c = Some inner \<and> map_get inner p = Some l \<and> bf \<in> set l \<longrightarrow>
             folder bf \<in> set (folders_of w)
           \<and> binding bf = config_get w (uri (folder bf))
           \<and> Some p = projectKey (binding bf)
           \<and> c = (if truthy (connectionId (binding bf)) then the (connectionId (binding bf))
                   else if truthy (serverId (binding bf)) then the (serverId (binding bf))
                   else ''<default>''))
     \<and> (distinct (folders_of w) \<longrightarrow> distinct (entries r))"
proof -
  from getAllBindings_entries [of w] obtain r where r: "getAllBindings w = Inr r" "keys_distinct r"
    "mset (entries r) = mset (map (entry_of w) (filter (\<lambda>f. truthy (projectKey (config_get w (uri f)))) (folders_of w)))"
    by blast
  from getAllBindings_member [of w] r(1)
  have m: "\<And>c p bf. (\<exists>inner l. map_get r c = Some inner \<and> map_get inner p = Some l \<and> bf \<in> set l)
        = (\<exists>f \<in> set (folders_of w). isBound w f \<and> (c, p, bf) = entry_of w f)"
    by auto
  have isb: "isBound w = (\<lambda>f. truthy (projectKey (config_get w (uri f))))"
    by (simp add: isBound_def fun_eq_iff)
  have eff: "\<And>b. effectiveConnectionId b =
        (if truthy (connectionId b) then the (connectionId b)
         else if truthy (serverId b) then the (serverId b) else ''<default>'')"
    by (auto simp: effectiveConnectionId_def or_else_def or_default_def truthy_def
          DEFAULT_CONNECTION_ID_def split: option.splits)
  have c1: "mset (entries r) = mset (map (entry_of w) (filter (isBound w) (folders_of w)))"
    using r(3) by (simp add: isb)
  have c2: "\<forall>f \<in> set (folders_of w).
           (\<exists>c p inner l bf. map_get r c = Some inner \<and> map_get inner p = Some l
                \<and> bf \<in> set l \<and> folder bf = f)
           = truthy (projectKey (config_get w (uri f)))"
  proof
    fix f assume f: "f \<in> set (folders_of w)"
    have "(\<exists>c p inner l bf. map_get r c = Some inner \<and> map_get inner p = Some l \<and> bf \<in> set l \<and> folder bf = f)
          = (\<exists>c p bf. (\<exists>inner l. map_get r c = Some inner \<and> map_get inner p = Some l \<and> bf \<in> set l) \<and> folder bf = f)"
      by blast
    also have "\<dots> = (\<exists>c p bf. (\<exists>f' \<in> set (folders_of w). isBound w f' \<and> (c, p, bf) = entry_of w f') \<and> folder bf = f)"
      unfolding m ..
    also have "\<dots> = isBound w f"
    proof
      assume "\<exists>c p bf. (\<exists>f' \<in> set (folders_of w). isBound w f' \<and> (c, p, bf) = entry_of w f') \<and> folder bf = f"
      then show "isBound w f" by (auto simp: entry_of_def Let_def)
    next
      assume b: "isBound w f"
      obtain c p bf where e: "entry_of w f = (c, p, bf)" by (cases "entry_of w f") auto
      then have "folder bf = f" by (auto simp: entry_of_def Let_def)
      with f b e show "\<exists>c p bf. (\<exists>f' \<in> set (folders_of w). isBound w f' \<and> (c, p, bf) = entry_of w f') \<and> folder bf = f"
        by metis
    qed
    finally show "(\<exists>c p inner l bf. map_get r c = Some inner \<and> map_get inner p = Some l \<and> bf \<in> set l \<and> folder bf = f)
          = truthy (projectKey (config_get w (uri f)))"
      by (simp add: isb)
  qed
  have c3: "\<forall>c p inner l bf.
           map_get r c = Some inner \<and> map_get inner p = Some l \<and> bf \<in> set l \<longrightarrow>
             folder bf \<in> set (folders_of w)
           \<and> binding bf = config_get w (uri (folder bf))
           \<and> Some p = projectKey (binding bf)
           \<and> c = (if truthy (connectionId (binding bf)) then the (connectionId (binding bf))
                   else if truthy (serverId (binding bf)) then the (serverId (binding bf))
                   else ''<default>'')"
  proof (intro allI impI)
    fix c p inner l bf
    assume "map_get r c = Some inner \<and> map_get inner p = Some l \<and> bf \<in> set l"
    with m [of c p bf] obtain f where f: "f \<in> set (folders_of w)" "isBound w f" "(c, p, bf) = entry_of w f"
      by blast
    from f(3) have bf: "bf = \<lparr>folder = f, binding = config_get w (uri f)\<rparr>"
      and c: "c = effectiveConnectionId (config_get w (uri f))"
      and p: "p = the (projectKey (config_get w (uri f)))"
      by (simp_all add: entry_of_def Let_def)
    from f(2) have "projectKey (config_get w (uri f)) = Some p"
      unfolding p by (auto simp: isBound_def truthy_def split: option.splits)
    with f(1) bf c show "folder bf \<in> set (folders_of w)
           \<and> binding bf = config_get w (uri (folder bf))
           \<and> Some p = projectKey (binding bf)
           \<and> c = (if truthy (connectionId (binding bf)) then the (connectionId (binding bf))
                   else if truthy (serverId (binding bf)) then the (serverId (binding bf))
                   else ''<default>'')"
      by (simp add: eff)
  qed
  have c4: "distinct (folders_of w) \<longrightarrow> distinct (entries r)"
  proof
    assume d: "distinct (folders_of w)"
    have "inj (entry_of w)"
      by (rule injI) (simp add: entry_of_def Let_def)
    then have "inj_on (entry_of w) (set (filter (isBound w) (folders_of w)))"
      by (rule inj_on_subset) simp
    with d have "distinct (map (entry_of w) (filter (isBound w) (folders_of w)))"
      by (simp add: distinct_map)
    with c1 show "distinct (entries r)" by (metis mset_eq_imp_distinct_iff)
  qed
  from r(1,2) c1 c2 c3 c4 show ?thesis by blast
qed

theorem getAllBindings_spec_witness:
  "folderA \<in> set (folders_of exampleWorkspace)
   \<and> truthy (projectKey (config_get exampleWorkspace (uri folderA)))
   \<and> distinct (folders_of exampleWorkspace)
   \<and> (\<exists>r. getAllBindings exampleWorkspace = Inr r \<and> distinct (entries r)
        \<and> (\<exists>c p inner l bf. map_get r c = Some inner \<and> map_get inner p = Some l
                \<and> bf \<in> set l \<and> folder bf = folderA))"
proof -
  have f: "folderA \<in> set (folders_of exampleWorkspace)"
    by (simp add: folders_of_def exampleWorkspace_def)
  have t: "truthy (projectKey (config_get exampleWorkspace (uri folderA)))"
    by (simp add: example_defs binding_defs)
  have d: "distinct (folders_of exampleWorkspace)"
    by (simp add: folders_of_def example_defs)
  from getAllBindings_spec [of exampleWorkspace]
  obtain r where r: "getAllBindings exampleWorkspace = Inr r"
    and i: "\<forall>f \<in> set (folders_of exampleWorkspace).
           (\<exists>c p inner l bf. map_get r c = Some inner \<and> map_get inner p = Some l
                \<and> bf \<in> set l \<and> folder bf = f)
           = truthy (projectKey (config_get exampleWorkspace (uri f)))"
    and e: "distinct (folders_of exampleWorkspace) \<longrightarrow> distinct (entries r)"
    by blast
  from i f t have "\<exists>c p inner l bf. map_get r c = Some inner \<and> map_get inner p = Some l
                \<and> bf \<in> set l \<and> folder bf = folderA"
    by simp
  moreover from e d have "distinct (entries r)" by simp
  ultimately show ?thesis using f t d r by simp
qed

section \<open>Deleting bindings\<close>

lemma fold_deleteBinding:
  "fold (\<lambda>f. deleteBinding (Bound f)) l w =
     w\<lparr>folderValue := (\<lambda>u. if u \<in> (\<lambda>bf. uri (folder bf)) ` set l then None else folderValue w u)\<rparr>"
proof (induction l arbitrary: w)
  case Nil
  then show ?case by simp
next
  case (Cons a l)
  show ?case
    unfolding fold_simps Cons.IH
    by (auto simp: deleteBinding_def config_update_def fun_eq_iff)
qed

lemma fold_clear_folders:
  "fold (\<lambda>a b. b\<lparr>folderValue := (\<lambda>u. if u \<in> g ` set a then None else folderValue b u)\<rparr>) ls w =
     w\<lparr>folderValue := (\<lambda>u. if u \<in> g ` (\<Union>(set ` set ls)) then None else folderValue w u)\<rparr>"
proof (induction ls arbitrary: w)
  case Nil
  then show ?case by simp
next
  case (Cons a ls)
  let ?w1 = "w\<lparr>folderValue := (\<lambda>u. if u \<in> g ` set a then None else folderValue w u)\<rparr>"
  have "(\<lambda>u. if u \<in> g ` (\<Union>(set ` set ls)) then None else folderValue ?w1 u) =
        (\<lambda>u. if u \<in> g ` (\<Union>(set ` set (a # ls))) then None else folderValue w u)"
    by (auto simp: fun_eq_iff)
  then show ?case by (simp add: Cons.IH)
qed

lemma fold_fold_deleteBinding:
  "fold (\<lambda>folders w1. fold (\<lambda>f. deleteBinding (Bound f)) folders w1) ls w =
     w\<lparr>folderValue := (\<lambda>u. if u \<in> (\<lambda>bf. uri (folder bf)) ` (\<Union>(set ` set ls)) then None else folderValue w u)\<rparr>"
  by (simp only: fold_deleteBinding fold_clear_folders)

lemma values_of_distinct:
  assumes "distinct (map fst m)"
  shows "(bf \<in> \<Union>(set ` set (map snd m))) = (\<exists>p l. map_of m p = Some l \<and> bf \<in> set l)"
proof
  assume "bf \<in> \<Union>(set ` set (map snd m))"
  then obtain p l where "(p, l) \<in> set m" "bf \<in> set l" by auto
  with assms show "\<exists>p l. map_of m p = Some l \<and> bf \<in> set l" by (metis map_of_is_SomeI)
next
  assume "\<exists>p l. map_of m p = Some l \<and> bf \<in> set l"
  then obtain p l where "map_of m p = Some l" "bf \<in> set l" by blast
  then have "(p, l) \<in> set m" by (simp add: map_of_SomeD)
  with \<open>bf \<in> set l\<close> show "bf \<in> \<Union>(set ` set (map snd m))" by force
qed

text \<open>
  The workspace after \<open>deleteBindingsForConnection\<close>: the workspace-folder level is
  cleared for the URIs of the folders bound to the connection id, and for no other.
\<close>

lemma deleteBindingsForConnection_result:
  "deleteBindingsForConnection connection w =
     Inr (w\<lparr>folderValue :=
            (\<lambda>u. if \<exists>f \<in> set (folders_of w).
                       boundTo w (or_default (conn_id connection) DEFAULT_CONNECTION_ID) f \<and> uri f = u
                  then None else folderValue w u)\<rparr>)"
proof -
  let ?c = "or_default (conn_id connection) DEFAULT_CONNECTION_ID"
  from getAllBindings_member [of w] obtain r where r: "getAllBindings w = Inr r" "keys_distinct r"
    and m: "\<And>c p bf. (\<exists>inner l. map_get r c = Some inner \<and> map_get inner p = Some l \<and> bf \<in> set l)
        = (\<exists>f \<in> set (folders_of w). isBound w f \<and> (c, p, bf) = entry_of w f)"
    by blast
  show ?thesis
  proof (cases "map_get r ?c")
    case None
    have no: "\<And>f. f \<in> set (folders_of w) \<Longrightarrow> \<not> boundTo w ?c f"
    proof
      fix f assume f: "f \<in> set (folders_of w)" and b: "boundTo w ?c f"
      obtain p bf where e: "entry_of w f = (?c, p, bf)"
        using b by (auto simp: boundTo_def entry_of_def Let_def)
      from f b e have "\<exists>f \<in> set (folders_of w). isBound w f \<and> (?c, p, bf) = entry_of w f"
        by (auto simp: boundTo_def)
      with m [of ?c p bf] None show False by auto
    qed
    have "w = w\<lparr>folderValue := (\<lambda>u. if \<exists>f \<in> set (folders_of w). boundTo w ?c f \<and> uri f = u
                  then None else folderValue w u)\<rparr>"
      using no by auto
    with r(1) None show ?thesis by (simp add: deleteBindingsForConnection_def Let_def)
  next
    case (Some bfc)
    then have "(?c, bfc) \<in> set r" by (simp add: map_get_def map_of_SomeD)
    with r(2) have d: "distinct (map fst bfc)" by (auto simp: keys_distinct_def)
    have mem: "\<And>bf. (bf \<in> \<Union>(set ` set (map snd bfc))) =
                 (\<exists>f \<in> set (folders_of w). boundTo w ?c f \<and> bf = snd (snd (entry_of w f)))"
    proof -
      fix bf
      have "(bf \<in> \<Union>(set ` set (map snd bfc))) = (\<exists>p l. map_get bfc p = Some l \<and> bf \<in> set l)"
        using values_of_distinct [OF d] by (simp add: map_get_def)
      also have "\<dots> = (\<exists>p. \<exists>inner l. map_get r ?c = Some inner \<and> map_get inner p = Some l \<and> bf \<in> set l)"
        using Some by simp
      also have "\<dots> = (\<exists>p. \<exists>f \<in> set (folders_of w). isBound w f \<and> (?c, p, bf) = entry_of w f)"
        using m by simp
      also have "\<dots> = (\<exists>f \<in> set (folders_of w). boundTo w ?c f \<and> bf = snd (snd (entry_of w f)))"
        by (auto simp: boundTo_def entry_of_def Let_def)
      finally show "(bf \<in> \<Union>(set ` set (map snd bfc))) =
                 (\<exists>f \<in> set (folders_of w). boundTo w ?c f \<and> bf = snd (snd (entry_of w f)))" .
    qed
    have img: "\<And>u. (u \<in> (\<lambda>bf. uri (folder bf)) ` (\<Union>(set ` set (map snd bfc)))) =
                 (\<exists>f \<in> set (folders_of w). boundTo w ?c f \<and> uri f = u)"
    proof -
      fix u
      have "(u \<in> (\<lambda>bf. uri (folder bf)) ` (\<Union>(set ` set (map snd bfc)))) =
            (\<exists>bf. bf \<in> \<Union>(set ` set (map snd bfc)) \<and> u = uri (folder bf))"
        by blast
      also have "\<dots> = (\<exists>bf. (\<exists>f \<in> set (folders_of w). boundTo w ?c f \<and> bf = snd (snd (entry_of w f))) \<and> u = uri (folder bf))"
        using mem by simp
      also have "\<dots> = (\<exists>f \<in> set (folders_of w). boundTo w ?c f \<and> uri f = u)"
        by (auto simp: entry_of_def Let_def)
      finally show "(u \<in> (\<lambda>bf. uri (folder bf)) ` (\<Union>(set ` set (map snd bfc)))) =
                 (\<exists>f \<in> set (folders_of w). boundTo w ?c f \<and> uri f = u)" .
    qed
    have "deleteBindingsForConnection connection w =
          Inr (w\<lparr>folderValue := (\<lambda>u. if u \<in> (\<lambda>bf. uri (folder bf)) ` (\<Union>(set ` set (map snd bfc))) then None else folderValue w u)\<rparr>)"
      using r(1) Some by (simp add: deleteBindingsForConnection_def Let_def fold_fold_deleteBinding)
    then show ?thesis unfolding img .
  qed
qed

text \<open>
  Claim C4, as amended. For every connection \<open>c\<close>, \<open>deleteBindingsForConnection c\<close>
  completes, and after it every workspace folder whose binding has a non-empty project
  key and whose effective connection id (\<open>connectionId\<close>, else \<open>serverId\<close>, else
  \<open><default>\<close>) equals the id of \<open>c\<close> (or \<open><default>\<close> when \<open>c\<close> has no id) has its setting
  cleared at the workspace-folder level, and the setting of every other folder (bound to
  another connection id, or without a non-empty project key) is unchanged, as are the
  list of folders and the values of the other levels.
\<close>

theorem deleteBindingsForConnection_frame:
  "\<exists>w'. deleteBindingsForConnection connection w = Inr w'
     \<and> workspaceFolders w' = workspaceFolders w
     \<and> inheritedValue w' = inheritedValue w
     \<and> (\<forall>f \<in> set (folders_of w).
           truthy (projectKey (config_get w (uri f)))
           \<and> effectiveConnectionId (config_get w (uri f)) = or_default (conn_id connection) ''<default>''
           \<longrightarrow> folderValue w' (uri f) = None)
     \<and> (\<forall>f :: WorkspaceFolder.
           \<not> (truthy (projectKey (config_get w (uri f)))
               \<and> effectiveConnectionId (config_get w (uri f)) = or_default (conn_id connection) ''<default>'')
           \<longrightarrow> folderValue w' (uri f) = folderValue w (uri f))"
proof -
  let ?c = "or_default (conn_id connection) DEFAULT_CONNECTION_ID"
  have same: "\<And>(f :: WorkspaceFolder) (f' :: WorkspaceFolder). uri f' = uri f \<Longrightarrow> boundTo w ?c f' = boundTo w ?c f"
    by (simp add: boundTo_def isBound_def)
  have bt: "\<And>f. boundTo w ?c f =
      (truthy (projectKey (config_get w (uri f)))
       \<and> effectiveConnectionId (config_get w (uri f)) = or_default (conn_id connection) ''<default>'')"
    by (simp add: boundTo_def isBound_def DEFAULT_CONNECTION_ID_def)
  let ?w' = "w\<lparr>folderValue :=
            (\<lambda>u. if \<exists>f \<in> set (folders_of w). boundTo w ?c f \<and> uri f = u
                  then None else folderValue w u)\<rparr>"
  have res: "deleteBindingsForConnection connection w = Inr ?w'"
    by (rule deleteBindingsForConnection_result)
  have a: "\<forall>f \<in> set (folders_of w).
           truthy (projectKey (config_get w (uri f)))
           \<and> effectiveConnectionId (config_get w (uri f)) = or_default (conn_id connection) ''<default>''
           \<longrightarrow> folderValue ?w' (uri f) = None"
  proof (intro ballI impI)
    fix f assume "f \<in> set (folders_of w)"
      and "truthy (projectKey (config_get w (uri f)))
           \<and> effectiveConnectionId (config_get w (uri f)) = or_default (conn_id connection) ''<default>''"
    then have "\<exists>f' \<in> set (folders_of w). boundTo w ?c f' \<and> uri f' = uri f"
      unfolding bt by blast
    then show "folderValue ?w' (uri f) = None" by simp
  qed
  have b: "\<forall>f :: WorkspaceFolder.
           \<not> (truthy (projectKey (config_get w (uri f)))
               \<and> effectiveConnectionId (config_get w (uri f)) = or_default (conn_id connection) ''<default>'')
           \<longrightarrow> folderValue ?w' (uri f) = folderValue w (uri f)"
  proof (intro allI impI)
    fix f :: WorkspaceFolder
    assume "\<not> (truthy (projectKey (config_get w (uri f)))
               \<and> effectiveConnectionId (config_get w (uri f)) = or_default (conn_id connection) ''<default>'')"
    then have "\<not> boundTo w ?c f" unfolding bt .
    with same have "\<not> (\<exists>f' \<in> set (folders_of w). boundTo w ?c f' \<and> uri f' = uri f)" by blast
    then show "folderValue ?w' (uri f) = folderValue w (uri f)" by auto
  qed
  have c: "workspaceFolders ?w' = workspaceFolders w" and d: "inheritedValue ?w' = inheritedValue w"
    by simp_all
  from res a b c d show ?thesis by blast
qed

theorem deleteBindingsForConnection_frame_witness:
  "folderA \<in> set (folders_of exampleWorkspace)
   \<and> truthy (projectKey (config_get exampleWorkspace (uri folderA)))
   \<and> effectiveConnectionId (config_get exampleWorkspace (uri folderA)) = or_default (Some ''c1'') ''<default>''
   \<and> \<not> truthy (projectKey (config_get exampleWorkspace (uri folderB)))
   \<and> (\<exists>w'. deleteBindingsForConnection \<lparr>conn_id = Some ''c1''\<rparr> exampleWorkspace = Inr w'
         \<and> folderValue w' (uri folderA) = None
         \<and> folderValue w' (uri folderB) = Some placeholderBinding)"
proof -
  have f: "folderA \<in> set (folders_of exampleWorkspace)"
    by (simp add: folders_of_def exampleWorkspace_def)
  have t: "truthy (projectKey (config_get exampleWorkspace (uri folderA)))"
    by (simp add: example_defs binding_defs)
  have e: "effectiveConnectionId (config_get exampleWorkspace (uri folderA)) = or_default (Some ''c1'') ''<default>''"
    by (simp add: example_defs binding_defs)
  have n: "\<not> truthy (projectKey (config_get exampleWorkspace (uri folderB)))"
    by (simp add: example_defs binding_defs)
  have v: "folderValue exampleWorkspace (uri folderB) = Some placeholderBinding"
    by (simp add: example_defs)
  from deleteBindingsForConnection_frame [of "\<lparr>conn_id = Some ''c1''\<rparr>" exampleWorkspace]
  obtain w' where w': "deleteBindingsForConnection \<lparr>conn_id = Some ''c1''\<rparr> exampleWorkspace = Inr w'"
    and a: "\<forall>f \<in> set (folders_of exampleWorkspace).
           truthy (projectKey (config_get exampleWorkspace (uri f)))
           \<and> effectiveConnectionId (config_get exampleWorkspace (uri f)) = or_default (conn_id \<lparr>conn_id = Some ''c1''\<rparr>) ''<default>''
           \<longrightarrow> folderValue w' (uri f) = None"
    and b: "\<forall>f :: WorkspaceFolder. \<not> (truthy (projectKey (config_get exampleWorkspace (uri f)))
               \<and> effectiveConnectionId (config_get exampleWorkspace (uri f)) = or_default (conn_id \<lparr>conn_id = Some ''c1''\<rparr>) ''<default>'')
           \<longrightarrow> folderValue w' (uri f) = folderValue exampleWorkspace (uri f)"
    by blast
  from a f t e have "folderValue w' (uri folderA) = None" by simp
  moreover from b [rule_format, of folderB] n v
  have "folderValue w' (uri folderB) = Some placeholderBinding" by simp
  ultimately show ?thesis using f t e n w' by simp
qed

text \<open>
  Claim C4 as first stated fails for a folder without a project key: the folder that
  holds the placeholder binding has the effective connection id \<open><default>\<close>, and
  deleting the bindings of the default connection leaves its setting in place.
\<close>

theorem deleteBindingsForConnection_unbound_counterexample:
  "folderB \<in> set (folders_of exampleWorkspace)
   \<and> effectiveConnectionId (config_get exampleWorkspace (uri folderB)) = or_default None ''<default>''
   \<and> (case deleteBindingsForConnection \<lparr>conn_id = None\<rparr> exampleWorkspace of
         Inl e \<Rightarrow> None
       | Inr w' \<Rightarrow> folderValue w' (uri folderB)) = Some placeholderBinding"
  by (simp add: deleteBindingsForConnection_def exampleWorkspace_bindings map_get_def or_default_def
        DEFAULT_CONNECTION_ID_def)
     (simp add: example_defs binding_defs)

text \<open>
  Claim C5, as amended. For every folder \<open>f\<close>, after \<open>deleteBinding f\<close> the setting of
  \<open>f\<close> is undefined at the workspace-folder level, nothing else of the configuration has
  changed, and \<open>isBound f\<close> returns whether the other levels still supply a non-empty
  project key: it returns false when they supply none.
\<close>

theorem deleteBinding_clears_folder_level:
  "folderValue (deleteBinding item w) (uri (item_folder item)) = None
   \<and> (\<forall>u. u \<noteq> uri (item_folder item) \<longrightarrow>
          folderValue (deleteBinding item w) u = folderValue w u)
   \<and> inheritedValue (deleteBinding item w) = inheritedValue w
   \<and> workspaceFolders (deleteBinding item w) = workspaceFolders w
   \<and> isBound (deleteBinding item w) (item_folder item) = truthy (projectKey (inheritedValue w))
   \<and> (\<not> truthy (projectKey (inheritedValue w)) \<longrightarrow>
          \<not> isBound (deleteBinding item w) (item_folder item))"
  by (cases item)
     (simp_all add: deleteBinding_def item_folder_def config_update_def config_get_def isBound_def)

theorem deleteBinding_clears_folder_level_witness:
  "uri folderB \<noteq> uri (item_folder (Bound \<lparr>folder = folderA, binding = bindingA\<rparr>))
   \<and> \<not> truthy (projectKey (inheritedValue exampleWorkspace))
   \<and> isBound exampleWorkspace folderA
   \<and> folderValue (deleteBinding (Bound \<lparr>folder = folderA, binding = bindingA\<rparr>) exampleWorkspace)
         (uri folderA) = None
   \<and> folderValue (deleteBinding (Bound \<lparr>folder = folderA, binding = bindingA\<rparr>) exampleWorkspace)
         (uri folderB) = Some placeholderBinding
   \<and> \<not> isBound (deleteBinding (Bound \<lparr>folder = folderA, binding = bindingA\<rparr>) exampleWorkspace) folderA"
proof -
  let ?item = "Bound \<lparr>folder = folderA, binding = bindingA\<rparr>"
  have f: "item_folder ?item = folderA"
    by (simp add: item_folder_def)
  have u: "uri folderB \<noteq> uri (item_folder ?item)"
    by (simp add: item_folder_def folderA_def folderB_def)
  have n: "\<not> truthy (projectKey (inheritedValue exampleWorkspace))"
    by (simp add: example_defs truthy_def)
  have b: "isBound exampleWorkspace folderA"
    by (simp add: example_defs binding_defs)
  have v: "folderValue exampleWorkspace (uri folderB) = Some placeholderBinding"
    by (simp add: example_defs)
  from deleteBinding_clears_folder_level [of ?item exampleWorkspace] u n
  have "folderValue (deleteBinding ?item exampleWorkspace) (uri (item_folder ?item)) = None"
    and "folderValue (deleteBinding ?item exampleWorkspace) (uri folderB) = folderValue exampleWorkspace (uri folderB)"
    and "\<not> isBound (deleteBinding ?item exampleWorkspace) (item_folder ?item)"
    by blast+
  with u n b v show ?thesis unfolding f by simp
qed

text \<open>
  Claim C5 as first stated fails when the user settings hold a binding: the folder's own
  level is cleared and the folder is still bound.
\<close>

theorem deleteBinding_inherited_counterexample:
  "folderValue (deleteBinding (Bound \<lparr>folder = folderA, binding = bindingA\<rparr>) inheritingWorkspace)
      (uri folderA) = None
   \<and> isBound (deleteBinding (Bound \<lparr>folder = folderA, binding = bindingA\<rparr>) inheritingWorkspace) folderA"
  by (simp add: deleteBinding_def inheritingWorkspace_def example_defs binding_defs)

section \<open>Eligibility for automatic binding\<close>

text \<open>
  Claim C6. For every workspace folder \<open>f\<close>, \<open>shouldBeAutoBound f\<close> returns true if and
  only if the stored binding of \<open>f\<close> has no non-empty project key and the string form of
  the URI of \<open>f\<close> is not in the list stored in the workspace state under
  \<open>doNotAskAboutAutoBindingForFolder\<close>, the empty list when nothing is stored.
\<close>

theorem shouldBeAutoBound_spec:
  "shouldBeAutoBound workspaceState w f =
     (\<not> truthy (projectKey (config_get w (uri f)))
      \<and> uri f \<notin> set (case workspaceState ''doNotAskAboutAutoBindingForFolder'' of
                         None \<Rightarrow> [] | Some l \<Rightarrow> l))"
  by (simp add: shouldBeAutoBound_def isBound_def memento_get_def
        DO_NOT_ASK_ABOUT_AUTO_BINDING_FOR_FOLDER_FLAG_def)

theorem shouldBeAutoBound_spec_witness:
  "shouldBeAutoBound (\<lambda>k. None) exampleWorkspace folderB
   \<and> \<not> shouldBeAutoBound (\<lambda>k. None) exampleWorkspace folderA
   \<and> \<not> shouldBeAutoBound
          ((\<lambda>k. None)(''doNotAskAboutAutoBindingForFolder'' := Some [''file:///b'']))
          exampleWorkspace folderB"
  using shouldBeAutoBound_spec [of "\<lambda>k. None" exampleWorkspace folderB]
    shouldBeAutoBound_spec [of "\<lambda>k. None" exampleWorkspace folderA]
    shouldBeAutoBound_spec
      [of "(\<lambda>k. None)(''doNotAskAboutAutoBindingForFolder'' := Some [''file:///b''])"
          exampleWorkspace folderB]
  by (simp add: example_defs binding_defs)

section \<open>Quick-pick items\<close>

text \<open>
  The loop of \<open>deduplicateQuickPickItems\<close> over a list of indices of the suggested array:
  it only allocates, and the array it has reached holds the remote items that differ in
  description from the suggested items at those indices.
\<close>

lemma dedup_fold_invariant:
  assumes "s < next_ref h" and "r < next_ref h"
    and "\<forall>i \<in> set is. i < length (arrays h s)"
  shows "\<exists>r' h'. fold (dedup_step s) is (r, h) = (r', h')
      \<and> r' < next_ref h' \<and> next_ref h \<le> next_ref h'
      \<and> (\<forall>a < next_ref h. arrays h' a = arrays h a)
      \<and> arrays h' r' =
          filter (\<lambda>rp. \<forall>i \<in> set is. description rp \<noteq> description (arrays h s ! i)) (arrays h r)"
  using assms
proof (induction "is" arbitrary: r h)
  case Nil
  then show ?case by simp
next
  case (Cons i "is")
  let ?P = "\<lambda>rp. description rp \<noteq> description (arrays h s ! i)"
  let ?r1 = "next_ref h"
  let ?h1 = "h\<lparr>arrays := (arrays h)(next_ref h := filter ?P (arrays h r)), next_ref := Suc (next_ref h)\<rparr>"
  from Cons.prems have i: "i < length (arrays h s)" by simp
  then have step: "dedup_step s i (r, h) = (?r1, ?h1)"
    by (simp add: dedup_step_def array_filter_def)
  from Cons.prems have s1: "s < next_ref ?h1" and r1: "?r1 < next_ref ?h1" by simp_all
  from Cons.prems have same: "arrays ?h1 s = arrays h s" by simp
  from Cons.prems same have b1: "\<forall>j \<in> set is. j < length (arrays ?h1 s)" by simp
  from Cons.IH [OF s1 r1 b1] obtain r' h' where
    f: "fold (dedup_step s) is (?r1, ?h1) = (r', h')"
    and lt: "r' < next_ref h'" and le: "next_ref ?h1 \<le> next_ref h'"
    and fr: "\<forall>a < next_ref ?h1. arrays h' a = arrays ?h1 a"
    and res: "arrays h' r' =
          filter (\<lambda>rp. \<forall>j \<in> set is. description rp \<noteq> description (arrays ?h1 s ! j)) (arrays ?h1 ?r1)"
    by blast
  have "fold (dedup_step s) (i # is) (r, h) = (r', h')" using step f by simp
  moreover from le have "next_ref h \<le> next_ref h'" by simp
  moreover have "\<forall>a < next_ref h. arrays h' a = arrays h a"
  proof (intro allI impI)
    fix a assume a: "a < next_ref h"
    then have "arrays h' a = arrays ?h1 a" using fr by simp
    also from a have "\<dots> = arrays h a" by simp
    finally show "arrays h' a = arrays h a" .
  qed
  moreover have "arrays h' r' =
          filter (\<lambda>rp. \<forall>j \<in> set (i # is). description rp \<noteq> description (arrays h s ! j)) (arrays h r)"
    unfolding res same by (auto intro: filter_cong)
  ultimately show ?case using lt by blast
qed

text \<open>
  Claim C3. For allocated arrays \<open>suggested\<close> and \<open>remote\<close>,
  \<open>deduplicateQuickPickItems\<close> returns an array that holds exactly the elements of
  \<open>remote\<close> whose description equals the description of no element of \<open>suggested\<close>, in
  their order, and it leaves \<open>suggested\<close>, and every other array that existed, unchanged.
\<close>

theorem deduplicateQuickPickItems_spec:
  assumes "suggested < next_ref h" and "remote < next_ref h"
  shows "\<exists>result h'. deduplicateQuickPickItems suggested remote h = (result, h')
      \<and> arrays h' result =
          filter (\<lambda>rp. \<forall>sp \<in> set (arrays h suggested). description rp \<noteq> description sp)
            (arrays h remote)
      \<and> arrays h' suggested = arrays h suggested
      \<and> (\<forall>a < next_ref h. arrays h' a = arrays h a)"
proof -
  let ?S = "arrays h suggested"
  have b: "\<forall>i \<in> set [0..<length ?S]. i < length ?S" by simp
  from dedup_fold_invariant [OF assms b] obtain r' h' where
    f: "fold (dedup_step suggested) [0..<length ?S] (remote, h) = (r', h')"
    and fr: "\<forall>a < next_ref h. arrays h' a = arrays h a"
    and res: "arrays h' r' =
          filter (\<lambda>rp. \<forall>i \<in> set [0..<length ?S]. description rp \<noteq> description (?S ! i)) (arrays h remote)"
    by blast
  have "\<And>rp :: QuickPickItem. (\<forall>i \<in> set [0..<length ?S]. description rp \<noteq> description (?S ! i))
            = (\<forall>sp \<in> set ?S. description rp \<noteq> description sp)"
  proof -
    fix rp :: QuickPickItem
    have "set ?S = (\<lambda>i. ?S ! i) ` set [0..<length ?S]"
      by (auto simp: in_set_conv_nth)
    then show "(\<forall>i \<in> set [0..<length ?S]. description rp \<noteq> description (?S ! i))
            = (\<forall>sp \<in> set ?S. description rp \<noteq> description sp)"
      by auto
  qed
  with res have "arrays h' r' =
          filter (\<lambda>rp. \<forall>sp \<in> set ?S. description rp \<noteq> description sp) (arrays h remote)"
    by simp
  moreover from fr assms(1) have "arrays h' suggested = ?S" by simp
  ultimately show ?thesis using f fr by (simp add: deduplicateQuickPickItems_def)
qed

theorem deduplicateQuickPickItems_spec_witness:
  "(0::nat) < next_ref exampleHeap \<and> (1::nat) < next_ref exampleHeap
   \<and> (\<exists>result h'. deduplicateQuickPickItems 0 1 exampleHeap = (result, h')
        \<and> arrays h' result = [pickItem ''Beta'' ''k2'', pickItem ''Gamma'' ''k3'']
        \<and> arrays h' 0 = [pickItem ''Alpha'' ''k1''])"
proof -
  have s: "(0::nat) < next_ref exampleHeap" and r: "(1::nat) < next_ref exampleHeap"
    by (simp_all add: exampleHeap_def)
  have f: "filter (\<lambda>rp. \<forall>sp \<in> set (arrays exampleHeap 0). description rp \<noteq> description sp)
            (arrays exampleHeap 1) = [pickItem ''Beta'' ''k2'', pickItem ''Gamma'' ''k3'']"
    by (simp add: exampleHeap_def pickItem_def)
  have a: "arrays exampleHeap 0 = [pickItem ''Alpha'' ''k1'']"
    by (simp add: exampleHeap_def)
  from deduplicateQuickPickItems_spec [OF s r] obtain result h' where
    d: "deduplicateQuickPickItems 0 1 exampleHeap = (result, h')"
    and res: "arrays h' result =
          filter (\<lambda>rp. \<forall>sp \<in> set (arrays exampleHeap 0). description rp \<noteq> description sp)
            (arrays exampleHeap 1)"
    and same: "arrays h' 0 = arrays exampleHeap 0"
    by blast
  from res f have "arrays h' result = [pickItem ''Beta'' ''k2'', pickItem ''Gamma'' ''k3'']" by simp
  moreover from same a have "arrays h' 0 = [pickItem ''Alpha'' ''k1'']" by simp
  ultimately show ?thesis using d s r by simp
qed

text \<open>
  Claim C8. For every list of workspace folders, in particular every non-empty one: when
  the list has exactly one element, the function returns the name of that folder and
  shows nothing; otherwise it shows one quick-pick over the names of all the folders, in
  their order, and returns what the user selects there.
\<close>

theorem showFolderSelection_spec:
  "(length folders = 1 \<longrightarrow>
      showFolderSelectionQuickPickOrReturnDefaultSelection showQuickPick folders
        = (Some (name (hd folders)), []))
   \<and> (length folders \<noteq> 1 \<longrightarrow>
      showFolderSelectionQuickPickOrReturnDefaultSelection showQuickPick folders
        = (showQuickPick (map name folders),
           [ShowQuickPick (map name folders)
              ''Select Folder to Bind''
              ''Select the workspace folder you want to create binding for'']))"
  by (cases folders) (simp_all add: showFolderSelectionQuickPickOrReturnDefaultSelection_def)

theorem showFolderSelection_spec_witness:
  "length [folderA] = 1 \<and> length [folderA, folderB] \<noteq> 1
   \<and> showFolderSelectionQuickPickOrReturnDefaultSelection (\<lambda>names. Some (last names)) [folderA]
        = (Some ''a'', [])
   \<and> showFolderSelectionQuickPickOrReturnDefaultSelection (\<lambda>names. Some (last names))
          [folderA, folderB]
        = (Some ''b'', [ShowQuickPick [''a'', ''b''] ''Select Folder to Bind''
                         ''Select the workspace folder you want to create binding for''])"
  using showFolderSelection_spec [of "[folderA]" "\<lambda>names. Some (last names)"]
    showFolderSelection_spec [of "[folderA, folderB]" "\<lambda>names. Some (last names)"]
  by (simp add: folderA_def folderB_def)

section \<open>The items of the remote projects\<close>

lemma mset_insert_sorted: "mset (insert_sorted c x xs) = add_mset x (mset xs)"
  by (induction xs) auto

lemma mset_array_sort: "mset (array_sort c xs) = mset xs"
  by (induction xs) (simp_all add: array_sort_def mset_insert_sorted)

lemma set_insert_sorted: "set (insert_sorted c x xs) = insert x (set xs)"
  by (induction xs) auto

lemma sorted_insert_sorted:
  assumes total: "\<And>a b. c a b \<le> 0 \<or> c b a \<le> 0"
    and trans: "\<And>a b d. c a b \<le> 0 \<Longrightarrow> c b d \<le> 0 \<Longrightarrow> c a d \<le> 0"
  shows "sorted_wrt (\<lambda>a b. c a b \<le> 0) xs \<Longrightarrow> sorted_wrt (\<lambda>a b. c a b \<le> 0) (insert_sorted c x xs)"
proof (induction xs)
  case Nil
  then show ?case by simp
next
  case (Cons y ys)
  show ?case
  proof (cases "c x y \<le> 0")
    case True
    with Cons.prems trans show ?thesis by auto
  next
    case False
    with total have "c y x \<le> 0" by blast
    with False Cons show ?thesis by (auto simp: set_insert_sorted)
  qed
qed

lemma sorted_array_sort:
  assumes total: "\<And>a b. c a b \<le> 0 \<or> c b a \<le> 0"
    and trans: "\<And>a b d. c a b \<le> 0 \<Longrightarrow> c b d \<le> 0 \<Longrightarrow> c a d \<le> 0"
  shows "sorted_wrt (\<lambda>a b. c a b \<le> 0) (array_sort c xs)"
proof (induction xs)
  case Nil
  then show ?case by (simp add: array_sort_def)
next
  case (Cons x xs)
  have "array_sort c (x # xs) = insert_sorted c x (array_sort c xs)"
    by (simp add: array_sort_def)
  with Cons sorted_insert_sorted [of c, OF total trans] show ?case by simp
qed

text \<open>
  Claim C7. Let the comparison of the English locale order any two strings one way or
  the other, transitively. Then for every connection id the items returned are sorted in
  non-decreasing order of label under that comparison; when the request succeeds they
  are, up to their order, one item per remote project, with the project name as label and
  the project key as description; and when the request fails the function shows the
  error message and returns the empty list: the failure does not propagate.
\<close>

theorem getRemoteProjectsItems_spec:
  assumes "\<forall>a b. localeCompare a b \<le> 0 \<or> localeCompare b a \<le> 0"
    and "\<forall>a b d. localeCompare a b \<le> 0 \<and> localeCompare b d \<le> 0 \<longrightarrow> localeCompare a d \<le> 0"
  shows "sorted_wrt (\<lambda>i1 i2. localeCompare (label i1) (label i2) \<le> 0)
           (fst (getRemoteProjectsItems localeCompare getRemoteProjects cid serverType))
       \<and> (\<forall>response. getRemoteProjects (or_default cid ''<default>'') = Inr response \<longrightarrow>
             mset (fst (getRemoteProjectsItems localeCompare getRemoteProjects cid serverType))
               = mset (map (\<lambda>kv. \<lparr>label = snd kv, description = Some (fst kv),
                                  buttons = [(''link-external'', ''View in '' @ serverType)]\<rparr>)
                         (remote_entries response)))
       \<and> (\<forall>e. getRemoteProjects (or_default cid ''<default>'') = Inl e \<longrightarrow>
             getRemoteProjectsItems localeCompare getRemoteProjects cid serverType
               = ([], [ShowErrorMessage
                         ''Request Failed: Could not get the list of remote projects. Please check the connection.'']))"
proof (intro conjI allI impI)
  let ?c = "\<lambda>i1 i2 :: QuickPickItem. localeCompare (label i1) (label i2)"
  have total: "\<And>a b. ?c a b \<le> 0 \<or> ?c b a \<le> 0" using assms(1) by blast
  have trans: "\<And>a b d. ?c a b \<le> 0 \<Longrightarrow> ?c b d \<le> 0 \<Longrightarrow> ?c a d \<le> 0" using assms(2) by blast
  have "\<And>xs. sorted_wrt (\<lambda>a b. ?c a b \<le> 0) (array_sort ?c xs)"
    by (rule sorted_array_sort [of ?c, OF total trans])
  then show "sorted_wrt (\<lambda>i1 i2. localeCompare (label i1) (label i2) \<le> 0)
           (fst (getRemoteProjectsItems localeCompare getRemoteProjects cid serverType))"
    by (simp add: getRemoteProjectsItems_def Let_def)
next
  fix response
  assume "getRemoteProjects (or_default cid ''<default>'') = Inr response"
  moreover have "remoteProjectItem serverType =
      (\<lambda>kv. \<lparr>label = snd kv, description = Some (fst kv),
             buttons = [(''link-external'', ''View in '' @ serverType)]\<rparr>)"
    by (simp add: fun_eq_iff remoteProjectItem_def)
  ultimately show "mset (fst (getRemoteProjectsItems localeCompare getRemoteProjects cid serverType))
               = mset (map (\<lambda>kv. \<lparr>label = snd kv, description = Some (fst kv),
                                  buttons = [(''link-external'', ''View in '' @ serverType)]\<rparr>)
                         (remote_entries response))"
    by (simp add: getRemoteProjectsItems_def Let_def DEFAULT_CONNECTION_ID_def mset_array_sort
          remote_entries_def)
next
  fix e
  assume "getRemoteProjects (or_default cid ''<default>'') = Inl e"
  then show "getRemoteProjectsItems localeCompare getRemoteProjects cid serverType
               = ([], [ShowErrorMessage
                         ''Request Failed: Could not get the list of remote projects. Please check the connection.''])"
    by (simp add: getRemoteProjectsItems_def Let_def DEFAULT_CONNECTION_ID_def array_sort_def)
qed

theorem getRemoteProjectsItems_spec_witness:
  "exampleClient (or_default (Some ''c1'') ''<default>'')
      = Inr (AsObject [(''k2'', ''Beta''), (''k1'', ''Alpha'')])
   \<and> exampleClient (or_default None ''<default>'') = Inl RequestFailed
   \<and> sorted_wrt (\<lambda>i1 i2. compareStrings (label i1) (label i2) \<le> 0)
        (fst (getRemoteProjectsItems compareStrings exampleClient (Some ''c1'') ''SonarQube''))
   \<and> mset (fst (getRemoteProjectsItems compareStrings exampleClient (Some ''c1'') ''SonarQube''))
        = {#\<lparr>label = ''Beta'', description = Some ''k2'',
              buttons = [(''link-external'', ''View in SonarQube'')]\<rparr>,
            \<lparr>label = ''Alpha'', description = Some ''k1'',
              buttons = [(''link-external'', ''View in SonarQube'')]\<rparr>#}
   \<and> getRemoteProjectsItems compareStrings exampleClient None ''SonarQube''
        = ([], [ShowErrorMessage
                  ''Request Failed: Could not get the list of remote projects. Please check the connection.''])"
proof -
  have total: "\<forall>a b. compareStrings a b \<le> 0 \<or> compareStrings b a \<le> 0"
    by (auto simp: compareStrings_def)
  have trans: "\<forall>a b d. compareStrings a b \<le> 0 \<and> compareStrings b d \<le> 0 \<longrightarrow> compareStrings a d \<le> 0"
    by (auto simp: compareStrings_def split: if_splits)
  have ok: "exampleClient (or_default (Some ''c1'') ''<default>'')
      = Inr (AsObject [(''k2'', ''Beta''), (''k1'', ''Alpha'')])"
    by (simp add: exampleClient_def or_default_def)
  have ko: "exampleClient (or_default None ''<default>'') = Inl RequestFailed"
    by (simp add: exampleClient_def or_default_def)
  have en: "remote_entries (AsObject [(''k2'', ''Beta''), (''k1'', ''Alpha'')])
      = [(''k2'', ''Beta''), (''k1'', ''Alpha'')]"
    by (simp add: remote_entries_def new_Map_def map_set_def)
  note a = getRemoteProjectsItems_spec [OF total trans, of exampleClient "Some ''c1''" "''SonarQube''"]
  note b = getRemoteProjectsItems_spec [OF total trans, of exampleClient None "''SonarQube''"]
  from a have s: "sorted_wrt (\<lambda>i1 i2. compareStrings (label i1) (label i2) \<le> 0)
        (fst (getRemoteProjectsItems compareStrings exampleClient (Some ''c1'') ''SonarQube''))"
    by blast
  from a ok have "mset (fst (getRemoteProjectsItems compareStrings exampleClient (Some ''c1'') ''SonarQube''))
        = mset (map (\<lambda>kv. \<lparr>label = snd kv, description = Some (fst kv),
                                  buttons = [(''link-external'', ''View in '' @ ''SonarQube'')]\<rparr>)
                         (remote_entries (AsObject [(''k2'', ''Beta''), (''k1'', ''Alpha'')])))"
    by blast
  then have m: "mset (fst (getRemoteProjectsItems compareStrings exampleClient (Some ''c1'') ''SonarQube''))
        = {#\<lparr>label = ''Beta'', description = Some ''k2'',
              buttons = [(''link-external'', ''View in SonarQube'')]\<rparr>,
            \<lparr>label = ''Alpha'', description = Some ''k1'',
              buttons = [(''link-external'', ''View in SonarQube'')]\<rparr>#}"
    unfolding en by simp
  from b ko have e: "getRemoteProjectsItems compareStrings exampleClient None ''SonarQube''
        = ([], [ShowErrorMessage
                  ''Request Failed: Could not get the list of remote projects. Please check the connection.''])"
    by blast
  from ok ko s m e show ?thesis by blast
qed

section \<open>Properties of performIsIgnoredCheck\<close>

text \<open>
  Whenever the git extension is registered, or the file is in no workspace folder, the
  promise resolves: failures of \<open>getAPI\<close> and of the check are absorbed into false.
\<close>

lemma performIsIgnoredCheck_resolves:
  "getExtension h ''vscode.git'' \<noteq> None \<or> getWorkspaceFolder h fileUri = None \<Longrightarrow>
   \<exists>b. fst (performIsIgnoredCheck h fileUri scmCheck) = Inr b"
  by (auto simp: performIsIgnoredCheck_def split: option.splits sum.splits)

text \<open>
  Claim C10 says that the promise is never rejected and resolves to false when the git
  extension is unavailable. For a file of a workspace folder, in an editor where no
  extension is registered under \<open>vscode.git\<close>, the promise is rejected with the error
  raised by reading \<open>exports\<close>, and nothing is logged.
\<close>

theorem performIsIgnoredCheck_rejects_without_git_extension:
  "performIsIgnoredCheck hostWithoutGit ''file:///a/x.ts'' (\<lambda>folder command. Inr True)
     = (Inl TypeError, [])"
  by (simp add: performIsIgnoredCheck_def hostWithoutGit_def)


end
